theory Spec2Isabelle
  imports Main "HOL-Library.Word" "HOL-Library.Sublist"
begin

section \<open>Byte sources\<close>

type_synonym byte = "8 word"

type_synonym cppstring = "byte list"

text \<open>
  Modelled from the spec: the class \<open>Source\<close> (source.h is not among the sources).
  A source is the bytes still to be delivered and an open flag. \<open>read(buf, n)\<close> is
  all-or-nothing; a short read fails and leaves the stream exhausted, so that every later
  read fails as well. \<open>getline(sep)\<close> reads up to the delimiter, consumes it and leaves it
  out of the result. \<open>close()\<close> ends the stream: the next read returns end-of-stream.
\<close>

record source =
  src_bytes :: "byte list"
  src_open :: bool

definition source_read :: "nat \<Rightarrow> source \<Rightarrow> byte list option \<times> source" where
  "source_read n s =
     (if n \<le> length (src_bytes s)
      then (Some (take n (src_bytes s)), s\<lparr>src_bytes := drop n (src_bytes s)\<rparr>)
      else (None, s\<lparr>src_bytes := []\<rparr>))"

definition source_getline :: "byte \<Rightarrow> source \<Rightarrow> cppstring option \<times> source" where
  "source_getline delim s =
     (if delim \<in> set (src_bytes s)
      then (Some (takeWhile (\<lambda>b. b \<noteq> delim) (src_bytes s)),
            s\<lparr>src_bytes := tl (dropWhile (\<lambda>b. b \<noteq> delim) (src_bytes s))\<rparr>)
      else (None, s\<lparr>src_bytes := []\<rparr>))"

definition source_is_open :: "source \<Rightarrow> bool" where
  "source_is_open s = src_open s"

definition source_close :: "source \<Rightarrow> source" where
  "source_close s = s\<lparr>src_bytes := [], src_open := False\<rparr>"

section \<open>Records of the wire format\<close>

type_synonym thread_id_t = "64 word"

type_synonym frame_id_t = "64 word"

datatype RecordType =
    ALLOCATION | FRAME_PUSH | FRAME_POP | FRAME_INDEX | NATIVE_TRACE_INDEX
  | MEMORY_MAP_START | SEGMENT_HEADER | SEGMENT | THREAD_RECORD

record TrackerStats =
  n_allocations :: nat
  n_frames :: nat
  start_time :: int
  end_time :: int

record HeaderRecord =
  magic :: "byte list"
  version :: "16 word"
  native_traces :: bool
  stats :: TrackerStats
  command_line :: cppstring
  pid :: int

record FramePush =
  push_tid :: thread_id_t
  push_frame_id :: frame_id_t

record FramePop =
  pop_tid :: thread_id_t
  pop_count :: nat

record Frame =
  function_name :: cppstring
  filename :: cppstring
  parent_lineno :: int
  lineno :: int

record UnresolvedNativeFrame =
  ip :: "64 word"
  index :: nat

record AllocationRecord =
  tid :: thread_id_t
  address :: "64 word"
  alloc_size :: nat
  allocator :: nat
  py_lineno :: int
  native_frame_id :: nat

record Segment =
  vaddr :: "64 word"
  memsz :: nat

record Allocation =
  alloc_record :: AllocationRecord
  frame_index :: nat
  native_segment_generation :: nat

text \<open>
  records.h is not among the sources. What the decoder takes from it is a parameter of the
  model: the constants \<open>MAGIC\<close> and \<open>CURRENT_HEADER_VERSION\<close>, the enumerators of
  \<open>RecordType\<close> (a byte that is no enumerator is \<open>None\<close> and reaches the \<open>default\<close> branch of
  a switch), and for every object read with \<open>reinterpret_cast\<close> its \<open>sizeof\<close> and its value
  as a function of the bytes read. \<open>NDEBUG\<close> says whether \<open>assert\<close> is compiled out.
  \<open>vector_max_size\<close> is \<open>std::vector<Segment>::max_size()\<close>, \<open>unset_lineno\<close> the \<open>lineno\<close>
  of a default-initialised \<open>Frame\<close>, and \<open>first_allocation_frame_id\<close> and
  \<open>allocation_frame_id_increment\<close> the first id that the member \<open>d_allocation_frames\<close>
  (declared in record_reader.h) hands out and the step between its ids. The type tag of a
  record is one byte.
\<close>

record config =
  NDEBUG :: bool
  MAGIC :: "byte list"
  CURRENT_HEADER_VERSION :: "16 word"
  recordType :: "byte \<Rightarrow> RecordType option"
  sizeof_version :: nat
  decode_version :: "byte list \<Rightarrow> 16 word"
  sizeof_native_traces :: nat
  decode_native_traces :: "byte list \<Rightarrow> bool"
  sizeof_stats :: nat
  decode_stats :: "byte list \<Rightarrow> TrackerStats"
  sizeof_pid :: nat
  decode_pid :: "byte list \<Rightarrow> int"
  sizeof_FramePush :: nat
  decode_FramePush :: "byte list \<Rightarrow> FramePush"
  sizeof_FramePop :: nat
  decode_FramePop :: "byte list \<Rightarrow> FramePop"
  sizeof_frame_id :: nat
  decode_frame_id :: "byte list \<Rightarrow> frame_id_t"
  sizeof_int :: nat
  decode_int :: "byte list \<Rightarrow> int"
  sizeof_UnresolvedNativeFrame :: nat
  decode_UnresolvedNativeFrame :: "byte list \<Rightarrow> UnresolvedNativeFrame"
  sizeof_AllocationRecord :: nat
  decode_AllocationRecord :: "byte list \<Rightarrow> AllocationRecord"
  sizeof_size_t :: nat
  decode_size_t :: "byte list \<Rightarrow> nat"
  sizeof_uintptr :: nat
  decode_uintptr :: "byte list \<Rightarrow> 64 word"
  sizeof_Segment :: nat
  decode_Segment :: "byte list \<Rightarrow> Segment"
  sizeof_thread_id :: nat
  decode_thread_id :: "byte list \<Rightarrow> thread_id_t"
  vector_max_size :: nat
  unset_lineno :: int
  first_allocation_frame_id :: frame_id_t
  allocation_frame_id_increment :: frame_id_t

section \<open>Failures\<close>

text \<open>
  Every way in which a member function of \<open>RecordReader\<close> leaves other than by returning:
  the exceptions it throws (\<open>std::ios_base::failure\<close>, \<open>std::runtime_error\<close>, the
  \<open>std::out_of_range\<close> of \<open>unordered_map::at\<close>, the \<open>std::length_error\<close> of a vector
  constructor), the \<open>abort()\<close> of a failed \<open>assert\<close>, and undefined behaviour
  (\<open>pop_back\<close> on an empty vector, an index beyond a vector). Only the first four are
  exceptions a caller can catch. \<open>PythonError\<close> is the result \<open>nullptr\<close> of a function of the
  Python API, with the error indicator set. Running out of memory is not modelled.
\<close>

datatype failure =
    IosFailure string
  | RuntimeError string
  | OutOfRange
  | LengthError
  | AssertionFailed
  | UndefinedBehaviour
  | PythonError

section \<open>The header\<close>

text \<open>
  \<open>RecordReader::readHeader\<close>. The result of reading the version is not tested: when that
  read fails, \<open>header.version\<close> keeps the value it had.
\<close>

definition readHeader :: "config \<Rightarrow> source \<Rightarrow> HeaderRecord \<Rightarrow> failure + (HeaderRecord \<times> source)" where
  "readHeader L input header =
     (case source_read (length (MAGIC L)) input of
        (None, s1) \<Rightarrow>
          Inl (IosFailure ''The provided input file does not look like a binary generated by pensieve.'')
      | (Some m, s1) \<Rightarrow>
          if m \<noteq> MAGIC L
          then Inl (IosFailure ''The provided input file does not look like a binary generated by pensieve.'')
          else
            (case source_read (sizeof_version L) s1 of (v, s2) \<Rightarrow>
               let header1 = header\<lparr>magic := m\<rparr>;
                   header2 = (case v of None \<Rightarrow> header1
                              | Some bs \<Rightarrow> header1\<lparr>version := decode_version L bs\<rparr>)
               in
               if version header2 \<noteq> CURRENT_HEADER_VERSION L
               then Inl (IosFailure ''The provided input file is incompatible with this version of pensieve.'')
               else
                 (case source_read (sizeof_native_traces L) s2 of
                    (None, s3) \<Rightarrow> Inl (IosFailure ''Failed to read input file.'')
                  | (Some nt, s3) \<Rightarrow>
                 (case source_read (sizeof_stats L) s3 of
                    (None, s4) \<Rightarrow> Inl (IosFailure ''Failed to read input file.'')
                  | (Some st, s4) \<Rightarrow>
                 (case source_getline 0 s4 of
                    (None, s5) \<Rightarrow> Inl (IosFailure ''Failed to read input file.'')
                  | (Some cl, s5) \<Rightarrow>
                 (case source_read (sizeof_pid L) s5 of
                    (None, s6) \<Rightarrow> Inl (IosFailure ''Failed to read tPID from input file.'')
                  | (Some p, s6) \<Rightarrow>
                      Inr (header2\<lparr>native_traces := decode_native_traces L nt,
                                   stats := decode_stats L st,
                                   command_line := cl,
                                   pid := decode_pid L p\<rparr>, s6)))))))"

section \<open>The state of the decoder\<close>

text \<open>
  Modelled from the spec: the interner \<open>FrameCollection\<close> behind \<open>d_allocation_frames\<close>
  (records.h is not among the sources). \<open>getIndex\<close> returns the id of a frame it has seen
  together with \<open>false\<close>, and a new id together with \<open>true\<close> for a frame it has not seen:
  identical frames share one id, distinct frames never share one. The new id is the
  counter \<open>fc_index\<close>, which then moves on by \<open>fc_increment\<close>.
\<close>

record FrameCollection =
  fc_ids :: "Frame \<rightharpoonup> frame_id_t"
  fc_index :: frame_id_t
  fc_increment :: frame_id_t

definition getIndex :: "FrameCollection \<Rightarrow> Frame \<Rightarrow> (frame_id_t \<times> bool) \<times> FrameCollection" where
  "getIndex fc frame =
     (case fc_ids fc frame of
        Some i \<Rightarrow> ((i, False), fc)
      | None \<Rightarrow> ((fc_index fc, True),
                 fc\<lparr>fc_ids := (fc_ids fc)(frame \<mapsto> fc_index fc),
                    fc_index := fc_index fc + fc_increment fc\<rparr>))"

text \<open>
  Modelled from the spec: the stack tree \<open>FrameTree\<close> behind \<open>d_tree\<close> (frame_tree.h is not
  among the sources). The tree is an append-only vector of nodes; node 0 is the root
  sentinel. \<open>getTraceIndex\<close> follows the path from the root, taking for each frame id the
  first-inserted child of the current node with that id and appending a node when there
  is none; it returns the index of the node that ends the path. \<open>nextNode\<close> reads a node;
  an index beyond the vector is undefined behaviour.
\<close>

record StackTreeNode =
  node_frame_id :: frame_id_t
  node_parent_index :: nat

type_synonym FrameTree = "StackTreeNode list"

definition root_tree :: FrameTree where
  "root_tree = [\<lparr>node_frame_id = 0, node_parent_index = 0\<rparr>]"

definition find_child :: "FrameTree \<Rightarrow> nat \<Rightarrow> frame_id_t \<Rightarrow> nat option" where
  "find_child tree parent frame =
     find (\<lambda>i. tree ! i = \<lparr>node_frame_id = frame, node_parent_index = parent\<rparr>) [1..<length tree]"

definition getChildIndex :: "FrameTree \<Rightarrow> nat \<Rightarrow> frame_id_t \<Rightarrow> nat \<times> FrameTree" where
  "getChildIndex tree parent frame =
     (case find_child tree parent frame of
        Some i \<Rightarrow> (i, tree)
      | None \<Rightarrow> (length tree, tree @ [\<lparr>node_frame_id = frame, node_parent_index = parent\<rparr>]))"

definition getTraceIndex :: "FrameTree \<Rightarrow> frame_id_t list \<Rightarrow> nat \<times> FrameTree" where
  "getTraceIndex tree stack_trace =
     fold (\<lambda>frame (i, t). getChildIndex t i frame) stack_trace (0, tree)"


text \<open>
  Modelled from the spec: the symbol resolver behind \<open>d_symbol_resolver\<close>, as far as the
  decoder drives it: a generation counter and the loaded objects. Clearing drops the
  objects and bumps the generation.
\<close>

record SymbolResolver =
  sr_generation :: nat
  sr_objects :: "(cppstring \<times> 64 word \<times> Segment list) list"

definition clearSegments :: "SymbolResolver \<Rightarrow> SymbolResolver" where
  "clearSegments r = r\<lparr>sr_objects := [], sr_generation := sr_generation r + 1\<rparr>"

definition addSegments :: "cppstring \<Rightarrow> 64 word \<Rightarrow> Segment list \<Rightarrow> SymbolResolver \<Rightarrow> SymbolResolver" where
  "addSegments file addr segments r = r\<lparr>sr_objects := sr_objects r @ [(file, addr, segments)]\<rparr>"

definition currentSegmentGeneration :: "SymbolResolver \<Rightarrow> nat" where
  "currentSegmentGeneration r = sr_generation r"

text \<open>
  The data members of \<open>RecordReader\<close>. A vector is a list whose last element is \<open>back()\<close>.
  \<open>d_log\<close> collects the messages written with \<open>LOG(ERROR)\<close>.
\<close>

record RecordReader =
  d_input :: source
  d_header :: HeaderRecord
  d_stack_traces :: "thread_id_t \<rightharpoonup> frame_id_t list"
  d_frame_map :: "frame_id_t \<rightharpoonup> Frame"
  d_allocation_frames :: FrameCollection
  d_tree :: FrameTree
  d_native_frames :: "UnresolvedNativeFrame list"
  d_thread_names :: "thread_id_t \<rightharpoonup> cppstring"
  d_symbol_resolver :: SymbolResolver
  d_log :: "string list"

definition LOG_ERROR :: "string \<Rightarrow> RecordReader \<Rightarrow> RecordReader" where
  "LOG_ERROR msg rd = rd\<lparr>d_log := d_log rd @ [msg]\<rparr>"

text \<open>
  \<open>RecordReader::RecordReader\<close>: the members are initialised and the body reads the header
  into \<open>d_header\<close>; \<open>header0\<close> is the value of that member before the body runs. When
  \<open>readHeader\<close> throws, the constructor throws and there is no reader.
\<close>

definition new_RecordReader :: "config \<Rightarrow> source \<Rightarrow> HeaderRecord \<Rightarrow> failure + RecordReader" where
  "new_RecordReader L src header0 =
     (case readHeader L src header0 of
        Inl e \<Rightarrow> Inl e
      | Inr (header, s) \<Rightarrow>
          Inr \<lparr>d_input = s, d_header = header, d_stack_traces = Map.empty,
               d_frame_map = Map.empty,
               d_allocation_frames =
                 \<lparr>fc_ids = Map.empty, fc_index = first_allocation_frame_id L,
                  fc_increment = allocation_frame_id_increment L\<rparr>,
               d_tree = root_tree, d_native_frames = [], d_thread_names = Map.empty,
               d_symbol_resolver = \<lparr>sr_generation = 0, sr_objects = []\<rparr>, d_log = []\<rparr>)"

definition close :: "RecordReader \<Rightarrow> RecordReader" where
  "close rd = rd\<lparr>d_input := source_close (d_input rd)\<rparr>"

definition isOpen :: "RecordReader \<Rightarrow> bool" where
  "isOpen rd = source_is_open (d_input rd)"

section \<open>The parsers of the records\<close>

text \<open>The vector \<open>d_stack_traces[tid]\<close>: \<open>operator[]\<close> gives an empty vector for a new key.\<close>

definition stack_of :: "RecordReader \<Rightarrow> thread_id_t \<Rightarrow> frame_id_t list" where
  "stack_of rd t = (case d_stack_traces rd t of None \<Rightarrow> [] | Some st \<Rightarrow> st)"

definition parseFramePush :: "config \<Rightarrow> RecordReader \<Rightarrow> failure + (bool \<times> RecordReader)" where
  "parseFramePush L rd =
     (case source_read (sizeof_FramePush L) (d_input rd) of
        (None, s) \<Rightarrow> Inr (False, rd\<lparr>d_input := s\<rparr>)
      | (Some bs, s) \<Rightarrow>
          let rec = decode_FramePush L bs; t = push_tid rec in
          Inr (True, rd\<lparr>d_input := s,
                        d_stack_traces := (d_stack_traces rd)(t \<mapsto> stack_of rd t @ [push_frame_id rec])\<rparr>))"

text \<open>
  The loop \<open>while (record.count) { --record.count; d_stack_traces[tid].pop_back(); }\<close>.
  \<open>pop_back\<close> on an empty vector is undefined behaviour.
\<close>

fun pop_back_loop :: "nat \<Rightarrow> frame_id_t list \<Rightarrow> failure + frame_id_t list" where
  "pop_back_loop 0 st = Inr st"
| "pop_back_loop (Suc n) st = (if st = [] then Inl UndefinedBehaviour else pop_back_loop n (butlast st))"

text \<open>
  \<open>RecordReader::parseFramePop\<close>. The assertion tests that the stack is not empty, whatever
  the count; it is compiled out under \<open>NDEBUG\<close>. A count of 0 never touches the map when the
  assertion is compiled out, and finds the key present when the assertion passed.
\<close>

definition parseFramePop :: "config \<Rightarrow> RecordReader \<Rightarrow> failure + (bool \<times> RecordReader)" where
  "parseFramePop L rd =
     (case source_read (sizeof_FramePop L) (d_input rd) of
        (None, s) \<Rightarrow> Inr (False, rd\<lparr>d_input := s\<rparr>)
      | (Some bs, s) \<Rightarrow>
          let rec = decode_FramePop L bs; t = pop_tid rec in
          if \<not> NDEBUG L \<and> stack_of rd t = [] then Inl AssertionFailed
          else
            (case pop_back_loop (pop_count rec) (stack_of rd t) of
               Inl e \<Rightarrow> Inl e
             | Inr st \<Rightarrow>
                 Inr (True, rd\<lparr>d_input := s,
                               d_stack_traces :=
                                 (if pop_count rec = 0 then d_stack_traces rd
                                  else (d_stack_traces rd)(t \<mapsto> st))\<rparr>)))"

definition parseFrameIndex :: "config \<Rightarrow> RecordReader \<Rightarrow> failure + (bool \<times> RecordReader)" where
  "parseFrameIndex L rd =
     (case source_read (sizeof_frame_id L) (d_input rd) of
        (None, s1) \<Rightarrow> Inr (False, rd\<lparr>d_input := s1\<rparr>)
      | (Some fid, s1) \<Rightarrow>
     (case source_getline 0 s1 of
        (None, s2) \<Rightarrow> Inr (False, rd\<lparr>d_input := s2\<rparr>)
      | (Some fname, s2) \<Rightarrow>
     (case source_getline 0 s2 of
        (None, s3) \<Rightarrow> Inr (False, rd\<lparr>d_input := s3\<rparr>)
      | (Some file, s3) \<Rightarrow>
     (case source_read (sizeof_int L) s3 of
        (None, s4) \<Rightarrow> Inr (False, rd\<lparr>d_input := s4\<rparr>)
      | (Some pl, s4) \<Rightarrow>
          let frame_id = decode_frame_id L fid;
              frame = \<lparr>function_name = fname, filename = file,
                       parent_lineno = decode_int L pl, lineno = unset_lineno L\<rparr>
          in
          (case d_frame_map rd frame_id of
             Some other \<Rightarrow> Inl (RuntimeError ''Two entries with the same ID found!'')
           | None \<Rightarrow>
               Inr (True, rd\<lparr>d_input := s4, d_frame_map := (d_frame_map rd)(frame_id \<mapsto> frame)\<rparr>))))))"

definition parseNativeFrameIndex :: "config \<Rightarrow> RecordReader \<Rightarrow> failure + (bool \<times> RecordReader)" where
  "parseNativeFrameIndex L rd =
     (case source_read (sizeof_UnresolvedNativeFrame L) (d_input rd) of
        (None, s) \<Rightarrow> Inr (False, rd\<lparr>d_input := s\<rparr>)
      | (Some bs, s) \<Rightarrow>
          Inr (True, rd\<lparr>d_input := s,
                        d_native_frames := d_native_frames rd @ [decode_UnresolvedNativeFrame L bs]\<rparr>))"

text \<open>\<open>RecordReader::parseAllocationRecord\<close>: \<open>None\<close> is the result \<open>false\<close>.\<close>

definition parseAllocationRecord :: "config \<Rightarrow> RecordReader \<Rightarrow> AllocationRecord option \<times> RecordReader" where
  "parseAllocationRecord L rd =
     (case source_read (sizeof_AllocationRecord L) (d_input rd) of
        (None, s) \<Rightarrow> (None, rd\<lparr>d_input := s\<rparr>)
      | (Some bs, s) \<Rightarrow> (Some (decode_AllocationRecord L bs), rd\<lparr>d_input := s\<rparr>))"

text \<open>\<open>RecordReader::parseSegment\<close>: \<open>None\<close> is the result \<open>false\<close>.\<close>

definition parseSegment :: "config \<Rightarrow> RecordReader \<Rightarrow> failure + (Segment option \<times> RecordReader)" where
  "parseSegment L rd =
     (case source_read 1 (d_input rd) of
        (None, s1) \<Rightarrow> Inr (None, rd\<lparr>d_input := s1\<rparr>)
      | (Some tag, s1) \<Rightarrow>
          if \<not> NDEBUG L \<and> recordType L (hd tag) \<noteq> Some SEGMENT then Inl AssertionFailed
          else
            (case source_read (sizeof_Segment L) s1 of
               (None, s2) \<Rightarrow> Inr (None, rd\<lparr>d_input := s2\<rparr>)
             | (Some bs, s2) \<Rightarrow> Inr (Some (decode_Segment L bs), rd\<lparr>d_input := s2\<rparr>)))"

text \<open>
  The loop \<open>for (size_t i = 0; i < num_segments; i++)\<close> of \<open>parseSegmentHeader\<close>, by the number
  of rounds left.
\<close>

fun parseSegments :: "config \<Rightarrow> nat \<Rightarrow> RecordReader \<Rightarrow> Segment list \<Rightarrow> failure + (Segment list option \<times> RecordReader)" where
  "parseSegments L 0 rd segments = Inr (Some segments, rd)"
| "parseSegments L (Suc n) rd segments =
     (case parseSegment L rd of
        Inl e \<Rightarrow> Inl e
      | Inr (None, rd') \<Rightarrow> Inr (None, rd')
      | Inr (Some segment, rd') \<Rightarrow> parseSegments L n rd' (segments @ [segment]))"

text \<open>
  \<open>RecordReader::parseSegmentHeader\<close>. The vector is constructed with \<open>num_segments\<close>
  value-initialised elements, which throws \<open>std::length_error\<close> beyond \<open>max_size()\<close>, and
  the segments read are appended to these.
\<close>

definition parseSegmentHeader :: "config \<Rightarrow> RecordReader \<Rightarrow> failure + (bool \<times> RecordReader)" where
  "parseSegmentHeader L rd =
     (case source_getline 0 (d_input rd) of
        (None, s1) \<Rightarrow> Inr (False, rd\<lparr>d_input := s1\<rparr>)
      | (Some file, s1) \<Rightarrow>
     (case source_read (sizeof_size_t L) s1 of
        (None, s2) \<Rightarrow> Inr (False, rd\<lparr>d_input := s2\<rparr>)
      | (Some ns, s2) \<Rightarrow>
     (case source_read (sizeof_uintptr L) s2 of
        (None, s3) \<Rightarrow> Inr (False, rd\<lparr>d_input := s3\<rparr>)
      | (Some ad, s3) \<Rightarrow>
          let num_segments = decode_size_t L ns; addr = decode_uintptr L ad in
          if vector_max_size L < num_segments then Inl LengthError
          else
            (case parseSegments L num_segments (rd\<lparr>d_input := s3\<rparr>)
                    (replicate num_segments \<lparr>vaddr = 0, memsz = 0\<rparr>) of
               Inl e \<Rightarrow> Inl e
             | Inr (None, rd') \<Rightarrow> Inr (False, rd')
             | Inr (Some segments, rd') \<Rightarrow>
                 Inr (True, rd'\<lparr>d_symbol_resolver :=
                                  addSegments file addr segments (d_symbol_resolver rd')\<rparr>)))))"

definition parseThreadRecord :: "config \<Rightarrow> RecordReader \<Rightarrow> failure + (bool \<times> RecordReader)" where
  "parseThreadRecord L rd =
     (case source_read (sizeof_thread_id L) (d_input rd) of
        (None, s1) \<Rightarrow> Inr (False, rd\<lparr>d_input := s1\<rparr>)
      | (Some tb, s1) \<Rightarrow>
     (case source_getline 0 s1 of
        (None, s2) \<Rightarrow> Inr (False, rd\<lparr>d_input := s2\<rparr>)
      | (Some name, s2) \<Rightarrow>
          Inr (True, rd\<lparr>d_input := s2,
                        d_thread_names := (d_thread_names rd)(decode_thread_id L tb \<mapsto> name)\<rparr>)))"

section \<open>The stack-tree index of an allocation\<close>

text \<open>\<open>unordered_map::emplace\<close> leaves the map alone when the key is present.\<close>

definition map_emplace :: "('k \<rightharpoonup> 'v) \<Rightarrow> 'k \<Rightarrow> 'v \<Rightarrow> ('k \<rightharpoonup> 'v)" where
  "map_emplace m k v = (case m k of None \<Rightarrow> m(k \<mapsto> v) | Some old \<Rightarrow> m)"

text \<open>
  \<open>RecordReader::correctAllocationFrame\<close>. The stack is passed by reference: the model
  returns the stack as the function leaves it. \<open>d_frame_map.at\<close> throws
  \<open>std::out_of_range\<close> for an id that is not in the map.
\<close>

definition correctAllocationFrame ::
  "frame_id_t list \<Rightarrow> int \<Rightarrow> RecordReader \<Rightarrow> failure + (frame_id_t list \<times> RecordReader)" where
  "correctAllocationFrame stack ln rd =
     (if stack = [] then Inr (stack, rd)
      else
        (case d_frame_map rd (last stack) of
           None \<Rightarrow> Inl OutOfRange
         | Some partial_frame \<Rightarrow>
             let allocation_frame =
                   \<lparr>function_name = function_name partial_frame, filename = filename partial_frame,
                    parent_lineno = parent_lineno partial_frame, lineno = ln\<rparr>
             in
             (case getIndex (d_allocation_frames rd) allocation_frame of
                ((allocation_index, is_new_frame), fc) \<Rightarrow>
                  Inr (butlast stack @ [allocation_index],
                       rd\<lparr>d_allocation_frames := fc,
                          d_frame_map :=
                            (if is_new_frame
                             then map_emplace (d_frame_map rd) allocation_index allocation_frame
                             else d_frame_map rd)\<rparr>))))"

text \<open>
  \<open>RecordReader::getAllocationFrameIndex\<close>: \<open>stack->second\<close> is the vector inside
  \<open>d_stack_traces\<close>, so the corrected stack is the one the map holds afterwards.
\<close>

definition getAllocationFrameIndex ::
  "AllocationRecord \<Rightarrow> RecordReader \<Rightarrow> failure + (nat \<times> RecordReader)" where
  "getAllocationFrameIndex rec rd =
     (case d_stack_traces rd (tid rec) of
        None \<Rightarrow> Inr (0, rd)
      | Some stack \<Rightarrow>
          (case correctAllocationFrame stack (py_lineno rec) rd of
             Inl e \<Rightarrow> Inl e
           | Inr (stack', rd') \<Rightarrow>
               (case getTraceIndex (d_tree rd') stack' of
                  (i, tree) \<Rightarrow>
                    Inr (i, rd'\<lparr>d_stack_traces := (d_stack_traces rd')(tid rec \<mapsto> stack'),
                                d_tree := tree\<rparr>))))"

section \<open>The decode loop\<close>

text \<open>
  How the body of the \<open>switch\<close> in \<open>nextAllocationRecord\<close> is left: by \<open>break\<close>, which starts
  the next round of \<open>while (true)\<close>, or by \<open>return\<close>. \<open>Return None\<close> is \<open>return false\<close>;
  \<open>Return (Some a)\<close> is \<open>return true\<close> with \<open>a\<close> stored through the out-parameter.
\<close>

datatype flow = Break | Return "Allocation option"

text \<open>
  The pattern of every case that calls a parser:
  \<open>if (!parseX()) { if (d_input->is_open()) LOG(ERROR) << msg; return false; } break;\<close>
\<close>

definition unless_parsed ::
  "string \<Rightarrow> failure + (bool \<times> RecordReader) \<Rightarrow> failure + (flow \<times> RecordReader)" where
  "unless_parsed msg r =
     (case r of
        Inl e \<Rightarrow> Inl e
      | Inr (ok, rd) \<Rightarrow>
          if ok then Inr (Break, rd)
          else Inr (Return None, if source_is_open (d_input rd) then LOG_ERROR msg rd else rd))"

text \<open>
  The \<open>switch (record_type)\<close> of \<open>nextAllocationRecord\<close>. \<open>SEGMENT\<close> has no case of its own
  and is handled by \<open>default\<close>, as is a byte that is no enumerator.
\<close>

definition switch_record_type ::
  "config \<Rightarrow> byte \<Rightarrow> RecordReader \<Rightarrow> failure + (flow \<times> RecordReader)" where
  "switch_record_type L record_type rd =
     (case recordType L record_type of
        Some ALLOCATION \<Rightarrow>
          (case parseAllocationRecord L rd of
             (None, rd1) \<Rightarrow>
               Inr (Return None,
                    if source_is_open (d_input rd1)
                    then LOG_ERROR ''Failed to parse allocation record'' rd1 else rd1)
           | (Some rec, rd1) \<Rightarrow>
               (case getAllocationFrameIndex rec rd1 of
                  Inl e \<Rightarrow> Inl e
                | Inr (f_index, rd2) \<Rightarrow>
                    Inr (Return (Some \<lparr>alloc_record = rec, frame_index = f_index,
                                        native_segment_generation =
                                          currentSegmentGeneration (d_symbol_resolver rd2)\<rparr>),
                         rd2)))
      | Some FRAME_PUSH \<Rightarrow> unless_parsed ''Failed to parse frame push'' (parseFramePush L rd)
      | Some FRAME_POP \<Rightarrow> unless_parsed ''Failed to parse frame pop'' (parseFramePop L rd)
      | Some FRAME_INDEX \<Rightarrow> unless_parsed ''Failed to parse frame index'' (parseFrameIndex L rd)
      | Some NATIVE_TRACE_INDEX \<Rightarrow>
          unless_parsed ''Failed to parse native frame index'' (parseNativeFrameIndex L rd)
      | Some MEMORY_MAP_START \<Rightarrow>
          Inr (Break, rd\<lparr>d_symbol_resolver := clearSegments (d_symbol_resolver rd)\<rparr>)
      | Some SEGMENT_HEADER \<Rightarrow>
          unless_parsed ''Failed to parse segment header'' (parseSegmentHeader L rd)
      | Some THREAD_RECORD \<Rightarrow> unless_parsed ''Failed to parse thread record'' (parseThreadRecord L rd)
      | _ \<Rightarrow>
          Inr (Return None,
               if source_is_open (d_input rd) then LOG_ERROR ''Invalid record type'' rd else rd))"

text \<open>The number of bytes the source still holds; no parser makes it larger.\<close>

definition remaining :: "RecordReader \<Rightarrow> nat" where
  "remaining rd = length (src_bytes (d_input rd))"

lemma source_read_remaining:
  "source_read n s = (r, s') \<Longrightarrow> length (src_bytes s') \<le> length (src_bytes s)"
  by (auto simp: source_read_def split: if_splits)

lemma source_read_Some_remaining:
  "source_read n s = (Some bs, s') \<Longrightarrow> length (src_bytes s') + n = length (src_bytes s)"
  by (auto simp: source_read_def split: if_splits)

lemma source_getline_remaining:
  "source_getline d s = (r, s') \<Longrightarrow> length (src_bytes s') \<le> length (src_bytes s)"
  by (auto simp: source_getline_def length_dropWhile_le le_SucI split: if_splits)
    (metis diff_le_self le_trans length_dropWhile_le)

lemma parseFramePush_remaining:
  "parseFramePush L rd = Inr (b, rd') \<Longrightarrow> remaining rd' \<le> remaining rd"
  by (auto simp: parseFramePush_def remaining_def Let_def split: prod.splits option.splits
      dest: source_read_remaining)

lemma parseFramePop_remaining:
  "parseFramePop L rd = Inr (b, rd') \<Longrightarrow> remaining rd' \<le> remaining rd"
  by (auto simp: parseFramePop_def remaining_def Let_def
      split: prod.splits option.splits if_splits sum.splits dest: source_read_remaining)

lemma parseFrameIndex_remaining:
  "parseFrameIndex L rd = Inr (b, rd') \<Longrightarrow> remaining rd' \<le> remaining rd"
  unfolding parseFrameIndex_def remaining_def Let_def
  by (auto split: prod.splits option.splits
      dest!: source_read_remaining source_getline_remaining)

lemma parseNativeFrameIndex_remaining:
  "parseNativeFrameIndex L rd = Inr (b, rd') \<Longrightarrow> remaining rd' \<le> remaining rd"
  by (auto simp: parseNativeFrameIndex_def remaining_def split: prod.splits option.splits
      dest: source_read_remaining)

lemma parseAllocationRecord_remaining:
  "parseAllocationRecord L rd = (r, rd') \<Longrightarrow> remaining rd' \<le> remaining rd"
  by (auto simp: parseAllocationRecord_def remaining_def split: prod.splits option.splits
      dest: source_read_remaining)

lemma parseSegment_remaining:
  "parseSegment L rd = Inr (r, rd') \<Longrightarrow> remaining rd' \<le> remaining rd"
  unfolding parseSegment_def remaining_def
  by (auto split: prod.splits option.splits if_splits dest!: source_read_remaining)

lemma parseSegments_remaining:
  "parseSegments L n rd acc = Inr (r, rd') \<Longrightarrow> remaining rd' \<le> remaining rd"
proof (induction n arbitrary: rd acc)
  case 0
  then show ?case by simp
next
  case (Suc n)
  then show ?case
    by (auto split: sum.splits prod.splits option.splits dest!: parseSegment_remaining)
      (meson le_trans)
qed

lemma parseSegmentHeader_remaining:
  "parseSegmentHeader L rd = Inr (b, rd') \<Longrightarrow> remaining rd' \<le> remaining rd"
  unfolding parseSegmentHeader_def Let_def
  by (auto simp: remaining_def split: prod.splits option.splits if_splits sum.splits
      dest!: source_read_remaining source_getline_remaining parseSegments_remaining)

lemma parseThreadRecord_remaining:
  "parseThreadRecord L rd = Inr (b, rd') \<Longrightarrow> remaining rd' \<le> remaining rd"
  unfolding parseThreadRecord_def remaining_def
  by (auto split: prod.splits option.splits dest!: source_read_remaining source_getline_remaining)

lemma correctAllocationFrame_input:
  "correctAllocationFrame st ln rd = Inr (st', rd') \<Longrightarrow> d_input rd' = d_input rd"
  by (auto simp: correctAllocationFrame_def Let_def split: if_splits option.splits prod.splits)

lemma getAllocationFrameIndex_input:
  "getAllocationFrameIndex rec rd = Inr (i, rd') \<Longrightarrow> d_input rd' = d_input rd"
  by (auto simp: getAllocationFrameIndex_def split: option.splits sum.splits prod.splits
      dest: correctAllocationFrame_input)

lemma LOG_ERROR_remaining [simp]: "remaining (LOG_ERROR msg rd) = remaining rd"
  by (simp add: LOG_ERROR_def remaining_def)

lemma unless_parsed_remaining:
  "unless_parsed msg r = Inr (fl, rd') \<Longrightarrow> \<exists>b rd1. r = Inr (b, rd1) \<and> remaining rd' = remaining rd1"
  by (auto simp: unless_parsed_def split: sum.splits prod.splits if_splits)

lemma switch_record_type_remaining:
  "switch_record_type L t rd = Inr (fl, rd') \<Longrightarrow> remaining rd' \<le> remaining rd"
  unfolding switch_record_type_def
  by (auto split: option.splits RecordType.splits prod.splits sum.splits if_splits
      dest!: unless_parsed_remaining parseFramePush_remaining parseFramePop_remaining
        parseFrameIndex_remaining parseNativeFrameIndex_remaining parseSegmentHeader_remaining
        parseThreadRecord_remaining parseAllocationRecord_remaining getAllocationFrameIndex_input
      simp: remaining_def LOG_ERROR_def)

text \<open>
  \<open>RecordReader::nextAllocationRecord\<close>: \<open>while (true)\<close>, one record per round. Each round
  consumes the type tag, so the loop ends on every source.
\<close>

function nextAllocationRecord ::
  "config \<Rightarrow> RecordReader \<Rightarrow> failure + (Allocation option \<times> RecordReader)" where
  "nextAllocationRecord L rd =
     (case source_read 1 (d_input rd) of
        (None, s) \<Rightarrow> Inr (None, rd\<lparr>d_input := s\<rparr>)
      | (Some record_type, s) \<Rightarrow>
          (case switch_record_type L (hd record_type) (rd\<lparr>d_input := s\<rparr>) of
             Inl e \<Rightarrow> Inl e
           | Inr (Return r, rd') \<Rightarrow> Inr (r, rd')
           | Inr (Break, rd') \<Rightarrow> nextAllocationRecord L rd'))"
  by pat_completeness auto
termination
proof (relation "measure (\<lambda>(L, rd). remaining rd)")
  show "wf (measure (\<lambda>(L, rd). remaining rd))" by simp
next
  fix L rd x1 s record_type y x1a rd'
  assume r: "(x1, s) = source_read 1 (d_input rd)" "x1 = Some record_type"
    and sw: "switch_record_type L (hd record_type) (rd\<lparr>d_input := s\<rparr>) = Inr y"
      "(x1a, rd') = y" "x1a = Break"
  from r have "length (src_bytes s) + 1 = length (src_bytes (d_input rd))"
    using source_read_Some_remaining [of 1 "d_input rd" record_type s] by simp
  moreover from sw have "remaining rd' \<le> remaining (rd\<lparr>d_input := s\<rparr>)"
    using switch_record_type_remaining [of L "hd record_type" "rd\<lparr>d_input := s\<rparr>" Break rd'] by simp
  ultimately show "((L, rd'), (L, rd)) \<in> measure (\<lambda>(L, rd). remaining rd)"
    by (simp add: remaining_def)
qed

declare nextAllocationRecord.simps [simp del]

section \<open>The interpreter stack trace of an allocation\<close>






section \<open>The Python layer\<close>

text \<open>
  The exceptions of the functions of the Cython module that are modelled. A C++ exception
  that leaves the reader becomes a Python exception; \<open>CppException\<close> carries what was thrown.
\<close>

datatype py_exception = ValueError string | StopIteration | TypeError | CppException failure

subsection \<open>\<open>AllocationRecord.hybrid_stack_trace\<close>\<close>

text \<open>
  A frame of a trace is a tuple: \<open>(function, file, lineno)\<close> for an interpreter frame,
  with the symbol first for a native frame. The lists that \<open>self.stack_trace(max_stacks)\<close>
  and \<open>self.native_stack_trace(max_stacks)\<close> return are the arguments of the model.
\<close>

type_synonym py_frame = "string \<times> string \<times> int"

definition is_eval_frame :: "string \<Rightarrow> bool" where
  "is_eval_frame symbol = sublist ''_PyEval_EvalFrameDefault'' symbol"

definition pure_python_stack_trace :: "py_frame list \<Rightarrow> py_frame list" where
  "pure_python_stack_trace stack_trace =
     filter (\<lambda>(fn, file, ln). \<not> suffix ''.pyx'' file) stack_trace"

text \<open>
  The \<open>for\<close> loop of \<open>hybrid_stack_trace\<close> over the native frames that are left. The result
  is the list of the frames the generator yields and the exception that ends it, if any.
  \<open>python_stack\<close> is what the iterator still holds: \<open>next\<close> raises \<open>StopIteration\<close> when it
  is exhausted. \<open>None - 1\<close> is a \<open>TypeError\<close>.
\<close>

fun hybrid_loop ::
  "int option \<Rightarrow> py_frame list \<Rightarrow> py_frame list \<Rightarrow> py_frame list \<times> py_exception option" where
  "hybrid_loop n_python_frames_left python_stack [] = ([], None)"
| "hybrid_loop n_python_frames_left python_stack (native_frame # rest) =
     (if n_python_frames_left = Some 0 then ([], None)
      else if is_eval_frame (fst native_frame)
      then
        (case python_stack of
           [] \<Rightarrow> ([], Some StopIteration)
         | python_frame # python_stack' \<Rightarrow>
             (case n_python_frames_left of
                None \<Rightarrow> ([], Some TypeError)
              | Some k \<Rightarrow>
                  (case hybrid_loop (Some (k - 1)) python_stack' rest of
                     (ys, e) \<Rightarrow> (python_frame # ys, e))))
      else
        (case hybrid_loop n_python_frames_left python_stack rest of
           (ys, e) \<Rightarrow> (native_frame # ys, e)))"

definition hybrid_stack_trace ::
  "py_frame list \<Rightarrow> py_frame list \<Rightarrow> py_frame list \<times> py_exception option" where
  "hybrid_stack_trace stack_trace native_stack_trace =
     (let python_stack = pure_python_stack_trace stack_trace;
          n_python_frames_left =
            (if python_stack \<noteq> [] then Some (int (length python_stack)) else None)
      in hybrid_loop n_python_frames_left python_stack native_stack_trace)"

subsection \<open>\<open>FileReader\<close>\<close>

text \<open>
  The functions of snapshot.h, which is not among the sources, and the conversion of a
  time stamp with \<open>datetime\<close> are parameters: \<open>getHighWatermark\<close>,
  \<open>Py_GetSnapshotAllocationRecords\<close> (with the list it returns) and \<open>millis_to_dt\<close>.
\<close>

record HighWatermark =
  watermark_index :: nat
  peak_memory :: nat

record ('e, 'dt) snapshot_api =
  getHighWatermark :: "Allocation list \<Rightarrow> HighWatermark"
  Py_GetSnapshotAllocationRecords :: "Allocation list \<Rightarrow> nat \<Rightarrow> bool \<Rightarrow> 'e list"
  millis_to_dt :: "int \<Rightarrow> py_exception + 'dt"

record FileReader =
  fr_reader :: "RecordReader option"
  fr_native_allocations :: "Allocation list"
  fr_high_watermark :: "HighWatermark option"
  fr_header :: HeaderRecord

text \<open>
  \<open>FileReader._get_reader\<close>, \<open>close\<close>, \<open>_ensure_reader_is_open\<close> and the property \<open>closed\<close>.
  \<open>fr_reader\<close> is the shared pointer \<open>_reader\<close>; \<open>None\<close> is \<open>NULL\<close>.
\<close>

definition get_reader :: "FileReader \<Rightarrow> py_exception + RecordReader" where
  "get_reader self =
     (case fr_reader self of
        None \<Rightarrow> Inl (ValueError ''Operation on a closed FileReader'')
      | Some reader \<Rightarrow> Inr reader)"



definition closed :: "FileReader \<Rightarrow> py_exception + bool" where
  "closed self =
     (case get_reader self of Inl e \<Rightarrow> Inl e | Inr reader \<Rightarrow> Inr (\<not> isOpen reader))"

text \<open>
  The loop \<open>while reader.nextAllocationRecord(&native_allocation)\<close> of
  \<open>_populate_allocations\<close>. Every record delivered has consumed input, so the loop ends.
\<close>

lemma nextAllocationRecord_consumes:
  "nextAllocationRecord L rd = Inr (Some a, rd') \<Longrightarrow> remaining rd' < remaining rd"
proof (induction L rd rule: nextAllocationRecord.induct)
  case (1 L rd)
  obtain r s where rs: "source_read 1 (d_input rd) = (r, s)" by (cases "source_read 1 (d_input rd)")
  show ?case
  proof (cases r)
    case None
    with rs "1.prems" show ?thesis
      by (subst (asm) nextAllocationRecord.simps) simp
  next
    case (Some tag)
    with rs have dec: "remaining (rd\<lparr>d_input := s\<rparr>) < remaining rd"
      using source_read_Some_remaining [of 1 "d_input rd" tag s] by (simp add: remaining_def)
    show ?thesis
    proof (cases "switch_record_type L (hd tag) (rd\<lparr>d_input := s\<rparr>)")
      case (Inl e)
      with rs Some "1.prems" show ?thesis
        by (subst (asm) nextAllocationRecord.simps) simp
    next
      case (Inr y)
      obtain fl rd1 where y: "y = (fl, rd1)" by (cases y)
      with Inr have le: "remaining rd1 \<le> remaining (rd\<lparr>d_input := s\<rparr>)"
        using switch_record_type_remaining by blast
      show ?thesis
      proof (cases fl)
        case Break
        with rs Some Inr y "1.prems" have "nextAllocationRecord L rd1 = Inr (Some a, rd')"
          by (subst (asm) nextAllocationRecord.simps) simp
        then have "remaining rd' < remaining rd1"
          using "1.IH" [OF rs [symmetric] Some Inr y [symmetric] Break] by simp
        with le dec show ?thesis by simp
      next
        case (Return res)
        with rs Some Inr y "1.prems" have "rd' = rd1"
          by (subst (asm) nextAllocationRecord.simps) simp
        with le dec show ?thesis by simp
      qed
    qed
  qed
qed

function populate_loop ::
  "config \<Rightarrow> RecordReader \<Rightarrow> Allocation list \<Rightarrow> failure + (RecordReader \<times> Allocation list)" where
  "populate_loop L reader allocations =
     (case nextAllocationRecord L reader of
        Inl e \<Rightarrow> Inl e
      | Inr (None, reader') \<Rightarrow> Inr (reader', allocations)
      | Inr (Some native_allocation, reader') \<Rightarrow>
          populate_loop L reader' (allocations @ [native_allocation]))"
  by pat_completeness auto
termination
  by (relation "measure (\<lambda>(L, reader, allocations). remaining reader)")
    (auto dest: nextAllocationRecord_consumes)

declare populate_loop.simps [simp del]

definition populate_allocations :: "config \<Rightarrow> FileReader \<Rightarrow> py_exception + FileReader" where
  "populate_allocations L self =
     (if fr_native_allocations self \<noteq> [] then Inr self
      else
        (case get_reader self of
           Inl e \<Rightarrow> Inl e
         | Inr reader \<Rightarrow>
             (case populate_loop L reader (fr_native_allocations self) of
                Inl e \<Rightarrow> Inl (CppException e)
              | Inr (reader', allocations) \<Rightarrow>
                  Inr (self\<lparr>fr_reader := Some reader', fr_native_allocations := allocations\<rparr>))))"

definition get_high_watermark ::
  "config \<Rightarrow> ('e, 'dt) snapshot_api \<Rightarrow> FileReader \<Rightarrow> py_exception + (HighWatermark \<times> FileReader)" where
  "get_high_watermark L api self =
     (case fr_high_watermark self of
        Some w \<Rightarrow> Inr (w, self)
      | None \<Rightarrow>
          (case populate_allocations L self of
             Inl e \<Rightarrow> Inl e
           | Inr self' \<Rightarrow>
               let w = getHighWatermark api (fr_native_allocations self')
               in Inr (w, self'\<lparr>fr_high_watermark := Some w\<rparr>)))"






record 'dt Metadata =
  md_start_time :: 'dt
  md_end_time :: 'dt
  md_total_allocations :: nat
  md_total_frames :: nat
  md_peak_memory :: nat
  md_command_line :: cppstring
  md_pid :: int

definition metadata ::
  "config \<Rightarrow> ('e, 'dt) snapshot_api \<Rightarrow> FileReader \<Rightarrow> py_exception + ('dt Metadata \<times> FileReader)" where
  "metadata L api self =
     (let st = stats (fr_header self) in
      case millis_to_dt api (start_time st) of
        Inl e \<Rightarrow> Inl e
      | Inr t0 \<Rightarrow>
      (case millis_to_dt api (end_time st) of
        Inl e \<Rightarrow> Inl e
      | Inr t1 \<Rightarrow>
      (case get_high_watermark L api self of
        Inl e \<Rightarrow> Inl e
      | Inr (w, self') \<Rightarrow>
          Inr (\<lparr>md_start_time = t0, md_end_time = t1,
                md_total_allocations = n_allocations st, md_total_frames = n_frames st,
                md_peak_memory = peak_memory w,
                md_command_line = command_line (fr_header self), md_pid = pid (fr_header self)\<rparr>,
               self'))))"

section \<open>Notions of the statements\<close>

text \<open>
  The version field of a stream, as the wire format places it: the \<open>sizeof_version\<close> bytes
  after the magic. A stream too short to hold them has none.
\<close>

definition version_field :: "config \<Rightarrow> source \<Rightarrow> 16 word option" where
  "version_field L s =
     (if length (MAGIC L) + sizeof_version L \<le> length (src_bytes s)
      then Some (decode_version L (take (sizeof_version L) (drop (length (MAGIC L)) (src_bytes s))))
      else None)"

text \<open>
  What a round of the decode loop does to the stacks of the threads depends on the record
  it decodes: a FRAME_PUSH, a FRAME_POP, or a record of another type. \<open>record_at L t bs\<close>
  is the record with the tag \<open>t\<close> whose payload starts the bytes \<open>bs\<close>.
\<close>

datatype frame_record = Push FramePush | Pop FramePop | Other

definition record_at :: "config \<Rightarrow> byte \<Rightarrow> byte list \<Rightarrow> frame_record" where
  "record_at L t payload =
     (case recordType L t of
        Some FRAME_PUSH \<Rightarrow> Push (decode_FramePush L (take (sizeof_FramePush L) payload))
      | Some FRAME_POP \<Rightarrow> Pop (decode_FramePop L (take (sizeof_FramePop L) payload))
      | _ \<Rightarrow> Other)"

text \<open>
  \<open>decodes L rd rs = Some rd'\<close>: started in \<open>rd\<close>, the decode loop runs one round for each
  of the records \<open>rs\<close>, which are the records the stream holds, and is then in \<open>rd'\<close>. A
  round is the body of \<open>while (true)\<close> in \<open>nextAllocationRecord\<close>: it reads the tag and goes
  through the \<open>switch\<close>. Every round has processed its record: none has thrown, aborted or
  returned \<open>false\<close>. The rounds may belong to several calls of \<open>nextAllocationRecord\<close>: a
  round that delivers an allocation ends one call and the next round starts another.
\<close>

fun decodes :: "config \<Rightarrow> RecordReader \<Rightarrow> frame_record list \<Rightarrow> RecordReader option" where
  "decodes L rd [] = Some rd"
| "decodes L rd (r # rs) =
     (case source_read 1 (d_input rd) of
        (None, s) \<Rightarrow> None
      | (Some record_type, s) \<Rightarrow>
          (case switch_record_type L (hd record_type) (rd\<lparr>d_input := s\<rparr>) of
             Inl e \<Rightarrow> None
           | Inr (Return None, rd') \<Rightarrow> None
           | Inr (fl, rd') \<Rightarrow>
               if r = record_at L (hd record_type) (src_bytes s) then decodes L rd' rs else None))"

declare decodes.simps(2) [simp del]

text \<open>
  \<open>pushed t rs\<close> is the number of FRAME_PUSH records for the thread \<open>t\<close> among \<open>rs\<close> and
  \<open>popped t rs\<close> the sum of the counts of its FRAME_POP records.
\<close>

fun pushed :: "thread_id_t \<Rightarrow> frame_record list \<Rightarrow> nat" where
  "pushed t [] = 0"
| "pushed t (Push r # rs) = (if push_tid r = t then 1 else 0) + pushed t rs"
| "pushed t (r # rs) = pushed t rs"

fun popped :: "thread_id_t \<Rightarrow> frame_record list \<Rightarrow> nat" where
  "popped t [] = 0"
| "popped t (Pop r # rs) = (if pop_tid r = t then pop_count r else 0) + popped t rs"
| "popped t (r # rs) = popped t rs"




text \<open>
  The payload of a record in the words of the spec: a sequence of fields, each a fixed
  number of bytes or a string that ends with a NUL. \<open>skip_fields\<close> gives the bytes that
  follow the fields, and \<open>None\<close> when the bytes end before the fields do. The payload of a
  SEGMENT_HEADER goes on with \<open>num_segments\<close> SEGMENT records, each a tag and its fields.
\<close>

datatype field = Fixed nat | Terminated

fun skip_field :: "field \<Rightarrow> byte list \<Rightarrow> byte list option" where
  "skip_field (Fixed n) bs = (if n \<le> length bs then Some (drop n bs) else None)"
| "skip_field Terminated bs =
     (if 0 \<in> set bs then Some (tl (dropWhile (\<lambda>b. b \<noteq> 0) bs)) else None)"



definition num_segments :: "config \<Rightarrow> byte list \<Rightarrow> nat" where
  "num_segments L bs =
     (case skip_field Terminated bs of
        None \<Rightarrow> 0
      | Some bs' \<Rightarrow> decode_size_t L (take (sizeof_size_t L) bs'))"



text \<open>The reader after a read has failed: the source holds no more bytes.\<close>

definition exhausted :: "RecordReader \<Rightarrow> RecordReader" where
  "exhausted rd = rd\<lparr>d_input := (d_input rd)\<lparr>src_bytes := []\<rparr>\<rparr>"



text \<open>The eval-frame trampolines of a native trace.\<close>

definition eval_frames :: "py_frame list \<Rightarrow> py_frame list" where
  "eval_frames native = filter (\<lambda>f. is_eval_frame (fst f)) native"


section \<open>A concrete configuration and concrete inputs\<close>

text \<open>
  Modelled from the spec: one instance of the parameters, used to run the model on
  concrete streams. Fixed-width fields are little-endian and naturally aligned (LP64);
  the magic is seven ASCII bytes and a NUL; the tags are the letters of the spec's tag
  alphabet.
\<close>

definition le_nat :: "byte list \<Rightarrow> nat" where
  "le_nat bs = foldr (\<lambda>b n. unat b + 256 * n) bs 0"

definition field :: "nat \<Rightarrow> nat \<Rightarrow> byte list \<Rightarrow> byte list" where
  "field off n bs = take n (drop off bs)"

definition le_sint32 :: "byte list \<Rightarrow> int" where
  "le_sint32 bs = sint (of_nat (le_nat bs) :: 32 word)"

definition spec_recordType :: "byte \<Rightarrow> RecordType option" where
  "spec_recordType b =
     (if b = 0x41 then Some ALLOCATION
      else if b = 0x50 then Some FRAME_PUSH
      else if b = 0x4F then Some FRAME_POP
      else if b = 0x49 then Some FRAME_INDEX
      else if b = 0x4E then Some NATIVE_TRACE_INDEX
      else if b = 0x4D then Some MEMORY_MAP_START
      else if b = 0x48 then Some SEGMENT_HEADER
      else if b = 0x53 then Some SEGMENT
      else if b = 0x54 then Some THREAD_RECORD
      else None)"

definition lp64 :: config where
  "lp64 =
     \<lparr>NDEBUG = True,
      MAGIC = [0x70, 0x65, 0x6E, 0x73, 0x69, 0x65, 0x76, 0],
      CURRENT_HEADER_VERSION = 1,
      recordType = spec_recordType,
      sizeof_version = 2,
      decode_version = (\<lambda>bs. of_nat (le_nat bs)),
      sizeof_native_traces = 1,
      decode_native_traces = (\<lambda>bs. le_nat bs \<noteq> 0),
      sizeof_stats = 32,
      decode_stats = (\<lambda>bs. \<lparr>n_allocations = le_nat (field 0 8 bs), n_frames = le_nat (field 8 8 bs),
                              start_time = int (le_nat (field 16 8 bs)),
                              end_time = int (le_nat (field 24 8 bs))\<rparr>),
      sizeof_pid = 4,
      decode_pid = le_sint32,
      sizeof_FramePush = 16,
      decode_FramePush = (\<lambda>bs. \<lparr>push_tid = of_nat (le_nat (field 0 8 bs)),
                                  push_frame_id = of_nat (le_nat (field 8 8 bs))\<rparr>),
      sizeof_FramePop = 16,
      decode_FramePop = (\<lambda>bs. \<lparr>pop_tid = of_nat (le_nat (field 0 8 bs)),
                                 pop_count = le_nat (field 8 2 bs)\<rparr>),
      sizeof_frame_id = 8,
      decode_frame_id = (\<lambda>bs. of_nat (le_nat bs)),
      sizeof_int = 4,
      decode_int = le_sint32,
      sizeof_UnresolvedNativeFrame = 16,
      decode_UnresolvedNativeFrame = (\<lambda>bs. \<lparr>ip = of_nat (le_nat (field 0 8 bs)),
                                              index = le_nat (field 8 4 bs)\<rparr>),
      sizeof_AllocationRecord = 40,
      decode_AllocationRecord = (\<lambda>bs. \<lparr>tid = of_nat (le_nat (field 0 8 bs)),
                                         address = of_nat (le_nat (field 8 8 bs)),
                                         alloc_size = le_nat (field 16 8 bs),
                                         allocator = le_nat (field 24 4 bs),
                                         py_lineno = le_sint32 (field 28 4 bs),
                                         native_frame_id = le_nat (field 32 4 bs)\<rparr>),
      sizeof_size_t = 8,
      decode_size_t = le_nat,
      sizeof_uintptr = 8,
      decode_uintptr = (\<lambda>bs. of_nat (le_nat bs)),
      sizeof_Segment = 16,
      decode_Segment = (\<lambda>bs. \<lparr>vaddr = of_nat (le_nat (field 0 8 bs)), memsz = le_nat (field 8 8 bs)\<rparr>),
      sizeof_thread_id = 8,
      decode_thread_id = (\<lambda>bs. of_nat (le_nat bs)),
      vector_max_size = 576460752303423487,
      unset_lineno = 0,
      first_allocation_frame_id = 1,
      allocation_frame_id_increment = 2\<rparr>"

definition header0 :: HeaderRecord where
  "header0 = \<lparr>magic = [], version = 0, native_traces = False,
              stats = \<lparr>n_allocations = 0, n_frames = 0, start_time = 0, end_time = 0\<rparr>,
              command_line = [], pid = 0\<rparr>"

definition stream_v2 :: source where
  "stream_v2 = \<lparr>src_bytes = [0x70, 0x65, 0x6E, 0x73, 0x69, 0x65, 0x76, 0, 2, 0, 0x50], src_open = True\<rparr>"

text \<open>
  A reader as the constructor leaves it, over the bytes that follow the header, and the
  wire form under \<open>lp64\<close> of FRAME_PUSH(tid 7, frame 1) and FRAME_POP(tid 7, count n).
\<close>

definition reader_on :: "byte list \<Rightarrow> bool \<Rightarrow> RecordReader" where
  "reader_on bs opn =
     \<lparr>d_input = \<lparr>src_bytes = bs, src_open = opn\<rparr>, d_header = header0,
      d_stack_traces = Map.empty, d_frame_map = Map.empty,
      d_allocation_frames = \<lparr>fc_ids = Map.empty, fc_index = 1, fc_increment = 2\<rparr>,
      d_tree = root_tree, d_native_frames = [], d_thread_names = Map.empty,
      d_symbol_resolver = \<lparr>sr_generation = 0, sr_objects = []\<rparr>, d_log = []\<rparr>"

definition wire_push_7_1 :: "byte list" where
  "wire_push_7_1 = [0x50, 7, 0, 0, 0, 0, 0, 0, 0, 1, 0, 0, 0, 0, 0, 0, 0]"

definition wire_pop_7 :: "byte \<Rightarrow> byte list" where
  "wire_pop_7 n = [0x4F, 7, 0, 0, 0, 0, 0, 0, 0, n, 0, 0, 0, 0, 0, 0, 0]"

text \<open>
  The wire form under \<open>lp64\<close> of FRAME_INDEX(id 2, \<open>"f"\<close>, \<open>"a.py"\<close>, parent_lineno 10) and
  of FRAME_PUSH(tid 7, frame 2).
\<close>

definition wire_index_2_f :: "byte list" where
  "wire_index_2_f =
     [0x49, 2, 0, 0, 0, 0, 0, 0, 0,  0x66, 0,  0x61, 0x2E, 0x70, 0x79, 0,  10, 0, 0, 0]"

definition wire_push_7_2 :: "byte list" where
  "wire_push_7_2 = [0x50, 7, 0, 0, 0, 0, 0, 0, 0, 2, 0, 0, 0, 0, 0, 0, 0]"

text \<open>
  The wire form under \<open>lp64\<close> of ALLOCATION(tid 7, address 0x100, size 64, allocator 1,
  py_lineno 12, native_frame_id 0), the frame \<open>("f", "a.py")\<close> called from line 10, and a
  reader that has decoded FRAME_INDEX(id 2) for this frame and FRAME_PUSH(tid 7, frame 2).
\<close>

definition wire_alloc_7_12 :: "byte list" where
  "wire_alloc_7_12 =
     [0x41, 7, 0, 0, 0, 0, 0, 0, 0,  0, 1, 0, 0, 0, 0, 0, 0,  64, 0, 0, 0, 0, 0, 0, 0,
      1, 0, 0, 0,  12, 0, 0, 0,  0, 0, 0, 0,  0, 0, 0, 0]"

definition alloc_7_12 :: AllocationRecord where
  "alloc_7_12 = \<lparr>tid = 7, address = 0x100, alloc_size = 64, allocator = 1, py_lineno = 12,
                  native_frame_id = 0\<rparr>"

definition frame_f :: Frame where
  "frame_f = \<lparr>function_name = [0x66], filename = [0x61, 0x2E, 0x70, 0x79],
               parent_lineno = 10, lineno = 0\<rparr>"


text \<open>
  A stream of six records, the records of its rounds, and the reader after them: the
  frame \<open>f\<close> is defined, pushed twice for the thread 7, an allocation of that thread is
  delivered, and FRAME_POP records with the counts 0 and 1 follow.
\<close>

definition stream_ex :: "byte list" where
  "stream_ex = wire_index_2_f @ wire_push_7_2 @ wire_push_7_2 @ wire_alloc_7_12
     @ wire_pop_7 0 @ wire_pop_7 1"

definition records_ex :: "frame_record list" where
  "records_ex =
     [Other, Push \<lparr>push_tid = 7, push_frame_id = 2\<rparr>, Push \<lparr>push_tid = 7, push_frame_id = 2\<rparr>,
      Other, Pop \<lparr>pop_tid = 7, pop_count = 0\<rparr>, Pop \<lparr>pop_tid = 7, pop_count = 1\<rparr>]"

definition reader_ex :: RecordReader where
  "reader_ex = (reader_on [] True)
     \<lparr>d_stack_traces := [7 \<mapsto> [2]],
      d_frame_map := [2 \<mapsto> frame_f, 1 \<mapsto> frame_f\<lparr>lineno := 12\<rparr>],
      d_allocation_frames :=
        \<lparr>fc_ids = [frame_f\<lparr>lineno := 12\<rparr> \<mapsto> 1], fc_index = 3, fc_increment = 2\<rparr>,
      d_tree := root_tree @ [\<lparr>node_frame_id = 2, node_parent_index = 0\<rparr>,
                             \<lparr>node_frame_id = 1, node_parent_index = 1\<rparr>]\<rparr>"






text \<open>
  A trace of an allocation made in Cython glue called from \<open>f\<close>, called from \<open>main\<close>, and
  its native trace in two parts, before and after the second trampoline.
\<close>

definition trace_ex :: "py_frame list" where
  "trace_ex = [(''valloc'', ''src/alloc.pyx'', 7), (''f'', ''a.py'', 12), (''main'', ''a.py'', 3)]"

definition native_pre_ex :: "py_frame list" where
  "native_pre_ex =
     [(''malloc'', ''libc.so'', 0), (''_PyEval_EvalFrameDefault'', ''ceval.c'', 1),
      (''call_function'', ''ceval.c'', 2)]"

definition native_post_ex :: "py_frame list" where
  "native_post_ex = [(''Py_RunMain'', ''main.c'', 9), (''__libc_start_main'', ''libc.so'', 0)]"

text \<open>
  An instance of the parameters, and a \<open>FileReader\<close> as \<open>__init__\<close> leaves it over a
  given reader.
\<close>

definition api_ex :: "(nat, int) snapshot_api" where
  "api_ex =
     \<lparr>getHighWatermark =
        (\<lambda>allocations. \<lparr>watermark_index = length allocations - 1,
                          peak_memory = sum_list (map (\<lambda>a. alloc_size (alloc_record a)) allocations)\<rparr>),
      Py_GetSnapshotAllocationRecords =
        (\<lambda>allocations idx merge_threads. map (\<lambda>a. alloc_size (alloc_record a)) allocations),
      millis_to_dt = Inr\<rparr>"

definition file_reader_on :: "RecordReader \<Rightarrow> FileReader" where
  "file_reader_on reader =
     \<lparr>fr_reader = Some reader, fr_native_allocations = [], fr_high_watermark = None,
      fr_header = header0\<rparr>"

section \<open>Steps of the decode loop\<close>

lemmas lp64_simps = lp64_def spec_recordType_def field_def le_sint32_def

lemma le_nat_simps [simp]: "le_nat [] = 0" "le_nat (b # bs) = unat b + 256 * le_nat bs"
  by (simp_all add: le_nat_def)

lemma source_read_append:
  "src_bytes s = bs @ rest \<Longrightarrow> length bs = n \<Longrightarrow>
   source_read n s = (Some bs, s\<lparr>src_bytes := rest\<rparr>)"
  by (simp add: source_read_def)

lemma pop_back_loop_ok:
  "n \<le> length st \<Longrightarrow> pop_back_loop n st = Inr (take (length st - n) st)"
proof (induction n arbitrary: st)
  case 0
  then show ?case by simp
next
  case (Suc n)
  then have "st \<noteq> []" by auto
  moreover have "n \<le> length (butlast st)" using Suc.prems by simp
  ultimately show ?case
    using Suc.IH [of "butlast st"] by (simp add: butlast_conv_take min_def)
qed

lemma pop_back_loop_under:
  "length st < n \<Longrightarrow> pop_back_loop n st = Inl UndefinedBehaviour"
proof (induction n arbitrary: st)
  case 0
  then show ?case by simp
next
  case (Suc n)
  show ?case
  proof (cases "st = []")
    case True
    then show ?thesis by simp
  next
    case False
    then have "length (butlast st) < n" using Suc.prems by (cases st rule: rev_cases) auto
    then show ?thesis using False Suc.IH [of "butlast st"] by simp
  qed
qed

lemma next_tag:
  assumes "src_bytes (d_input rd) = t # rest"
  shows "nextAllocationRecord L rd =
     (case switch_record_type L t (rd\<lparr>d_input := (d_input rd)\<lparr>src_bytes := rest\<rparr>\<rparr>) of
        Inl e \<Rightarrow> Inl e
      | Inr (Return r, rd') \<Rightarrow> Inr (r, rd')
      | Inr (Break, rd') \<Rightarrow> nextAllocationRecord L rd')"
proof -
  have "source_read 1 (d_input rd) = (Some [t], (d_input rd)\<lparr>src_bytes := rest\<rparr>)"
    using assms source_read_append [of "d_input rd" "[t]" rest 1] by simp
  then show ?thesis
    by (subst nextAllocationRecord.simps) simp
qed

lemma next_end:
  assumes "src_bytes (d_input rd) = []"
  shows "nextAllocationRecord L rd = Inr (None, rd)"
  using assms by (subst nextAllocationRecord.simps) (simp add: source_read_def)

lemma next_push:
  assumes "src_bytes (d_input rd) = (t # payload) @ rest"
    and "recordType L t = Some FRAME_PUSH" and "length payload = sizeof_FramePush L"
  shows "nextAllocationRecord L rd =
     nextAllocationRecord L
       (rd\<lparr>d_input := (d_input rd)\<lparr>src_bytes := rest\<rparr>,
           d_stack_traces := (d_stack_traces rd)
             (push_tid (decode_FramePush L payload) \<mapsto>
                stack_of rd (push_tid (decode_FramePush L payload))
                  @ [push_frame_id (decode_FramePush L payload)])\<rparr>)"
proof -
  let ?rd1 = "rd\<lparr>d_input := (d_input rd)\<lparr>src_bytes := payload @ rest\<rparr>\<rparr>"
  have rd: "source_read (sizeof_FramePush L) (d_input ?rd1) =
      (Some payload, (d_input rd)\<lparr>src_bytes := rest\<rparr>)"
    using source_read_append [of "d_input ?rd1" payload rest "sizeof_FramePush L"] assms(3)
    by simp
  have "parseFramePush L ?rd1 =
      Inr (True, rd\<lparr>d_input := (d_input rd)\<lparr>src_bytes := rest\<rparr>,
           d_stack_traces := (d_stack_traces rd)
             (push_tid (decode_FramePush L payload) \<mapsto>
                stack_of rd (push_tid (decode_FramePush L payload))
                  @ [push_frame_id (decode_FramePush L payload)])\<rparr>)"
    unfolding parseFramePush_def rd by (simp add: Let_def stack_of_def)
  then show ?thesis
    using assms(1,2) next_tag [of rd t "payload @ rest" L]
    by (simp add: switch_record_type_def unless_parsed_def)
qed

lemma next_allocation:
  assumes "src_bytes (d_input rd) = (t # payload) @ rest"
    and "recordType L t = Some ALLOCATION" and "length payload = sizeof_AllocationRecord L"
  shows "nextAllocationRecord L rd =
     (case getAllocationFrameIndex (decode_AllocationRecord L payload)
             (rd\<lparr>d_input := (d_input rd)\<lparr>src_bytes := rest\<rparr>\<rparr>) of
        Inl e \<Rightarrow> Inl e
      | Inr (f_index, rd2) \<Rightarrow>
          Inr (Some \<lparr>alloc_record = decode_AllocationRecord L payload, frame_index = f_index,
                      native_segment_generation = currentSegmentGeneration (d_symbol_resolver rd2)\<rparr>,
               rd2))"
proof -
  let ?rd1 = "rd\<lparr>d_input := (d_input rd)\<lparr>src_bytes := payload @ rest\<rparr>\<rparr>"
  have rd: "source_read (sizeof_AllocationRecord L) (d_input ?rd1) =
      (Some payload, (d_input rd)\<lparr>src_bytes := rest\<rparr>)"
    using source_read_append [of "d_input ?rd1" payload rest "sizeof_AllocationRecord L"] assms(3)
    by simp
  have "parseAllocationRecord L ?rd1 =
      (Some (decode_AllocationRecord L payload), rd\<lparr>d_input := (d_input rd)\<lparr>src_bytes := rest\<rparr>\<rparr>)"
    unfolding parseAllocationRecord_def rd by simp
  then show ?thesis
    using assms(1,2) next_tag [of rd t "payload @ rest" L]
    by (simp add: switch_record_type_def split: sum.splits prod.splits)
qed

lemma getTraceIndex_Nil [simp]: "getTraceIndex tree [] = (0, tree)"
  by (simp add: getTraceIndex_def)

lemma getAllocationFrameIndex_empty:
  assumes "stack_of rd (tid rec) = []"
  shows "getAllocationFrameIndex rec rd = Inr (0, rd)"
proof (cases "d_stack_traces rd (tid rec)")
  case None
  then show ?thesis by (simp add: getAllocationFrameIndex_def)
next
  case (Some st)
  with assms have "st = []" by (simp add: stack_of_def)
  with Some have "(d_stack_traces rd)(tid rec \<mapsto> []) = d_stack_traces rd"
    by (simp add: map_upd_triv)
  with Some \<open>st = []\<close> show ?thesis
    by (simp add: getAllocationFrameIndex_def correctAllocationFrame_def)
qed

lemma decode_alloc_7_12: "decode_AllocationRecord lp64 (tl wire_alloc_7_12) = alloc_7_12"
  by (simp add: wire_alloc_7_12_def alloc_7_12_def lp64_simps)


lemma next_alloc_7_12:
  "nextAllocationRecord lp64 (reader_on wire_alloc_7_12 True) =
     Inr (Some \<lparr>alloc_record = alloc_7_12, frame_index = 0, native_segment_generation = 0\<rparr>,
          reader_on [] True)"
proof -
  let ?rd = "reader_on wire_alloc_7_12 True"
  have a: "src_bytes (d_input ?rd) = (0x41 # tl wire_alloc_7_12) @ []"
    by (simp add: reader_on_def wire_alloc_7_12_def)
  have b: "recordType lp64 0x41 = Some ALLOCATION" by (simp add: lp64_simps)
  have c: "length (tl wire_alloc_7_12) = sizeof_AllocationRecord lp64"
    by (simp add: wire_alloc_7_12_def lp64_def)
  have "getAllocationFrameIndex alloc_7_12 (reader_on [] True) = Inr (0, reader_on [] True)"
    by (rule getAllocationFrameIndex_empty) (simp add: reader_on_def stack_of_def)
  then show ?thesis
    using next_allocation [OF a b c]
    by (simp add: decode_alloc_7_12 reader_on_def currentSegmentGeneration_def)
qed

section \<open>The version check of the header\<close>

lemma readHeader_version_mismatch:
  assumes "version_field L src = Some v" "v \<noteq> CURRENT_HEADER_VERSION L"
  shows "readHeader L src h0 =
     Inl (IosFailure
       (if take (length (MAGIC L)) (src_bytes src) = MAGIC L
        then ''The provided input file is incompatible with this version of pensieve.''
        else ''The provided input file does not look like a binary generated by pensieve.''))"
proof -
  from assms(1) have len: "length (MAGIC L) + sizeof_version L \<le> length (src_bytes src)"
    and v: "v = decode_version L (take (sizeof_version L) (drop (length (MAGIC L)) (src_bytes src)))"
    by (auto simp: version_field_def split: if_splits)
  from len have r1: "source_read (length (MAGIC L)) src =
      (Some (take (length (MAGIC L)) (src_bytes src)), src\<lparr>src_bytes := drop (length (MAGIC L)) (src_bytes src)\<rparr>)"
    by (simp add: source_read_def)
  from len have r2: "source_read (sizeof_version L) (src\<lparr>src_bytes := drop (length (MAGIC L)) (src_bytes src)\<rparr>) =
      (Some (take (sizeof_version L) (drop (length (MAGIC L)) (src_bytes src))),
       src\<lparr>src_bytes := drop (sizeof_version L) (drop (length (MAGIC L)) (src_bytes src))\<rparr>)"
    by (simp add: source_read_def)
  show ?thesis
    using assms(2) v by (simp add: readHeader_def r1 r2 Let_def)
qed

text \<open>
  C1. Constructing a \<open>RecordReader\<close> over a stream whose version field differs from
  \<open>CURRENT_HEADER_VERSION\<close> throws \<open>std::ios_base::failure\<close> out of \<open>readHeader\<close>: the
  message is the one of the version check when the magic matches and the one of the
  magic check otherwise. The constructor yields no reader, so nothing can read a record.
\<close>

theorem C1_version_mismatch:
  assumes "version_field L src = Some v" "v \<noteq> CURRENT_HEADER_VERSION L"
  shows "new_RecordReader L src h0 =
     Inl (IosFailure
       (if take (length (MAGIC L)) (src_bytes src) = MAGIC L
        then ''The provided input file is incompatible with this version of pensieve.''
        else ''The provided input file does not look like a binary generated by pensieve.''))"
  using readHeader_version_mismatch [OF assms] by (simp add: new_RecordReader_def)

theorem C1_version_mismatch_witness:
  "version_field lp64 stream_v2 = Some 2 \<and> (2 :: 16 word) \<noteq> CURRENT_HEADER_VERSION lp64
   \<and> new_RecordReader lp64 stream_v2 header0 =
       Inl (IosFailure ''The provided input file is incompatible with this version of pensieve.'')"
proof -
  have a: "version_field lp64 stream_v2 = Some 2"
    by (simp add: version_field_def lp64_def stream_v2_def)
  have b: "(2 :: 16 word) \<noteq> CURRENT_HEADER_VERSION lp64"
    by (simp add: lp64_def)
  show ?thesis
    using a b C1_version_mismatch [OF a b, of header0] by (simp add: lp64_def stream_v2_def)
qed

section \<open>ALLOCATION records\<close>





text \<open>
  C3. When the loop reaches an ALLOCATION record whose thread has an empty stack (no
  entry in \<open>d_stack_traces\<close>, or an entry that is empty), \<open>nextAllocationRecord\<close> returns
  \<open>true\<close> and delivers the record with \<open>frame_index = 0\<close>, the root of the stack tree,
  stamped with the current generation of the resolver; the rest of the state is as it
  was. For the empty entry the index is the one \<open>getTraceIndex\<close> gives to the empty path.
\<close>

theorem C3_empty_stack_delivered:
  assumes "src_bytes (d_input rd) = (t # payload) @ rest"
    and "recordType L t = Some ALLOCATION" and "length payload = sizeof_AllocationRecord L"
    and "stack_of rd (tid (decode_AllocationRecord L payload)) = []"
  shows "nextAllocationRecord L rd =
     Inr (Some \<lparr>alloc_record = decode_AllocationRecord L payload, frame_index = 0,
                 native_segment_generation = currentSegmentGeneration (d_symbol_resolver rd)\<rparr>,
          rd\<lparr>d_input := (d_input rd)\<lparr>src_bytes := rest\<rparr>\<rparr>)"
proof -
  let ?rd1 = "rd\<lparr>d_input := (d_input rd)\<lparr>src_bytes := rest\<rparr>\<rparr>"
  have "stack_of ?rd1 (tid (decode_AllocationRecord L payload)) = []"
    using assms(4) by (simp add: stack_of_def)
  then have "getAllocationFrameIndex (decode_AllocationRecord L payload) ?rd1 = Inr (0, ?rd1)"
    by (rule getAllocationFrameIndex_empty)
  then show ?thesis
    using next_allocation [OF assms(1-3)] by simp
qed

theorem C3_empty_stack_delivered_witness:
  "stack_of (reader_on wire_alloc_7_12 True) 7 = []
   \<and> nextAllocationRecord lp64 (reader_on wire_alloc_7_12 True) =
       Inr (Some \<lparr>alloc_record = alloc_7_12, frame_index = 0, native_segment_generation = 0\<rparr>,
            reader_on [] True)"
proof -
  let ?rd = "reader_on wire_alloc_7_12 True"
  have a: "src_bytes (d_input ?rd) = (0x41 # tl wire_alloc_7_12) @ []"
    by (simp add: reader_on_def wire_alloc_7_12_def)
  have b: "recordType lp64 0x41 = Some ALLOCATION" by (simp add: lp64_simps)
  have c: "length (tl wire_alloc_7_12) = sizeof_AllocationRecord lp64"
    by (simp add: wire_alloc_7_12_def lp64_def)
  have d: "stack_of ?rd (tid (decode_AllocationRecord lp64 (tl wire_alloc_7_12))) = []"
    by (simp add: reader_on_def stack_of_def)
  have e: "stack_of ?rd 7 = []" by (simp add: reader_on_def stack_of_def)
  show ?thesis
    using e C3_empty_stack_delivered [OF a b c d]
    by (simp add: decode_alloc_7_12 reader_on_def currentSegmentGeneration_def)
qed

section \<open>The stacks of the threads\<close>

lemma pop_back_loop_Inr:
  "pop_back_loop n st = Inr st' \<Longrightarrow> n \<le> length st \<and> st' = take (length st - n) st"
  using pop_back_loop_ok [of n st] pop_back_loop_under [of st n]
  by (cases "n \<le> length st") auto

lemma parseFramePush_stacks:
  "parseFramePush L rd = Inr (True, rd') \<Longrightarrow>
   stack_of rd' = (stack_of rd)
     (push_tid (decode_FramePush L (take (sizeof_FramePush L) (src_bytes (d_input rd)))) :=
        stack_of rd (push_tid (decode_FramePush L (take (sizeof_FramePush L) (src_bytes (d_input rd)))))
          @ [push_frame_id (decode_FramePush L (take (sizeof_FramePush L) (src_bytes (d_input rd))))])"
  by (auto simp: parseFramePush_def source_read_def Let_def stack_of_def fun_eq_iff
      split: if_splits)

lemma parseFramePop_stacks:
  assumes "parseFramePop L rd = Inr (True, rd')"
    and "p = decode_FramePop L (take (sizeof_FramePop L) (src_bytes (d_input rd)))"
  shows "pop_count p \<le> length (stack_of rd (pop_tid p))
     \<and> (NDEBUG L \<or> stack_of rd (pop_tid p) \<noteq> [])
     \<and> stack_of rd' = (stack_of rd)
          (pop_tid p := take (length (stack_of rd (pop_tid p)) - pop_count p) (stack_of rd (pop_tid p)))"
  using assms
  by (auto simp: parseFramePop_def source_read_def Let_def stack_of_def fun_eq_iff
      split: if_splits sum.splits option.splits dest!: pop_back_loop_Inr)

lemma parseFrameIndex_stacks:
  "parseFrameIndex L rd = Inr (b, rd') \<Longrightarrow> d_stack_traces rd' = d_stack_traces rd"
  unfolding parseFrameIndex_def Let_def
  by (auto split: prod.splits option.splits)

lemma parseNativeFrameIndex_stacks:
  "parseNativeFrameIndex L rd = Inr (b, rd') \<Longrightarrow> d_stack_traces rd' = d_stack_traces rd"
  by (auto simp: parseNativeFrameIndex_def split: prod.splits option.splits)

lemma parseAllocationRecord_stacks:
  "parseAllocationRecord L rd = (r, rd') \<Longrightarrow> d_stack_traces rd' = d_stack_traces rd"
  by (auto simp: parseAllocationRecord_def split: prod.splits option.splits)

lemma parseSegment_stacks:
  "parseSegment L rd = Inr (r, rd') \<Longrightarrow> d_stack_traces rd' = d_stack_traces rd"
  unfolding parseSegment_def
  by (auto split: prod.splits option.splits if_splits)

lemma parseSegments_stacks:
  "parseSegments L n rd acc = Inr (r, rd') \<Longrightarrow> d_stack_traces rd' = d_stack_traces rd"
proof (induction n arbitrary: rd acc)
  case 0
  then show ?case by simp
next
  case (Suc n)
  then show ?case
    by (auto split: sum.splits prod.splits option.splits dest!: parseSegment_stacks)
qed

lemma parseSegmentHeader_stacks:
  "parseSegmentHeader L rd = Inr (b, rd') \<Longrightarrow> d_stack_traces rd' = d_stack_traces rd"
  unfolding parseSegmentHeader_def Let_def
  by (auto split: prod.splits option.splits if_splits sum.splits dest!: parseSegments_stacks)

lemma parseThreadRecord_stacks:
  "parseThreadRecord L rd = Inr (b, rd') \<Longrightarrow> d_stack_traces rd' = d_stack_traces rd"
  unfolding parseThreadRecord_def
  by (auto split: prod.splits option.splits)

lemma getAllocationFrameIndex_stack_length:
  "getAllocationFrameIndex rec rd = Inr (i, rd') \<Longrightarrow>
   length (stack_of rd' u) = length (stack_of rd u)"
  by (auto simp: getAllocationFrameIndex_def correctAllocationFrame_def stack_of_def Let_def
      split: option.splits sum.splits prod.splits if_splits)

lemma stack_of_cong: "d_stack_traces rd' = d_stack_traces rd \<Longrightarrow> stack_of rd' = stack_of rd"
  by (simp add: stack_of_def fun_eq_iff)

lemma unless_parsed_Inr:
  "unless_parsed msg r = Inr (fl, rd') \<Longrightarrow>
   (fl = Break \<and> r = Inr (True, rd'))
   \<or> (fl = Return None \<and> (\<exists>rd1. r = Inr (False, rd1) \<and> d_stack_traces rd' = d_stack_traces rd1))"
  by (auto simp: unless_parsed_def LOG_ERROR_def split: sum.splits prod.splits if_splits)

lemma stack_of_input [simp]: "stack_of (rd\<lparr>d_input := s\<rparr>) = stack_of rd"
  by (simp add: stack_of_def fun_eq_iff)

lemma round_stack_length:
  assumes "switch_record_type L t rd = Inr (fl, rd')" and "fl \<noteq> Return None"
    and "r = record_at L t (src_bytes (d_input rd))"
  shows "popped u [r] \<le> length (stack_of rd u) + pushed u [r]
     \<and> length (stack_of rd' u) = length (stack_of rd u) + pushed u [r] - popped u [r]"
proof (cases "recordType L t")
  case None
  with assms show ?thesis by (simp add: switch_record_type_def)
next
  case (Some T)
  show ?thesis
  proof (cases T)
    case ALLOCATION
    with Some assms(1) obtain rec rd1 i where "parseAllocationRecord L rd = (Some rec, rd1)"
      "getAllocationFrameIndex rec rd1 = Inr (i, rd')"
      using assms(2)
      by (auto simp: switch_record_type_def split: prod.splits option.splits sum.splits)
    then have "length (stack_of rd' u) = length (stack_of rd u)"
      using getAllocationFrameIndex_stack_length [of rec rd1 i rd' u]
        stack_of_cong [OF parseAllocationRecord_stacks, of L rd "Some rec" rd1]
      by simp
    with Some ALLOCATION assms(3) show ?thesis by (simp add: record_at_def)
  next
    case FRAME_PUSH
    with Some assms(1,2) have "parseFramePush L rd = Inr (True, rd')"
      by (auto simp: switch_record_type_def dest!: unless_parsed_Inr)
    from parseFramePush_stacks [OF this] Some FRAME_PUSH assms(3) show ?thesis
      by (simp add: record_at_def)
  next
    case FRAME_POP
    with Some assms(1,2) have "parseFramePop L rd = Inr (True, rd')"
      by (auto simp: switch_record_type_def dest!: unless_parsed_Inr)
    from parseFramePop_stacks [OF this refl] Some FRAME_POP assms(3) show ?thesis
      by (auto simp: record_at_def)
  next
    case FRAME_INDEX
    with Some assms(1,2) have "parseFrameIndex L rd = Inr (True, rd')"
      by (auto simp: switch_record_type_def dest!: unless_parsed_Inr)
    from stack_of_cong [OF parseFrameIndex_stacks [OF this]] Some FRAME_INDEX assms(3)
    show ?thesis by (simp add: record_at_def)
  next
    case NATIVE_TRACE_INDEX
    with Some assms(1,2) have "parseNativeFrameIndex L rd = Inr (True, rd')"
      by (auto simp: switch_record_type_def dest!: unless_parsed_Inr)
    from stack_of_cong [OF parseNativeFrameIndex_stacks [OF this]] Some NATIVE_TRACE_INDEX assms(3)
    show ?thesis by (simp add: record_at_def)
  next
    case MEMORY_MAP_START
    with Some assms(1) have "d_stack_traces rd' = d_stack_traces rd"
      by (auto simp: switch_record_type_def)
    from stack_of_cong [OF this] Some MEMORY_MAP_START assms(3)
    show ?thesis by (simp add: record_at_def)
  next
    case SEGMENT_HEADER
    with Some assms(1,2) have "parseSegmentHeader L rd = Inr (True, rd')"
      by (auto simp: switch_record_type_def dest!: unless_parsed_Inr)
    from stack_of_cong [OF parseSegmentHeader_stacks [OF this]] Some SEGMENT_HEADER assms(3)
    show ?thesis by (simp add: record_at_def)
  next
    case SEGMENT
    with Some assms(1,2) show ?thesis by (simp add: switch_record_type_def)
  next
    case THREAD_RECORD
    with Some assms(1,2) have "parseThreadRecord L rd = Inr (True, rd')"
      by (auto simp: switch_record_type_def dest!: unless_parsed_Inr)
    from stack_of_cong [OF parseThreadRecord_stacks [OF this]] Some THREAD_RECORD assms(3)
    show ?thesis by (simp add: record_at_def)
  qed
qed

lemma pushed_Cons: "pushed u (r # rs) = pushed u [r] + pushed u rs"
  by (cases r) simp_all

lemma popped_Cons: "popped u (r # rs) = popped u [r] + popped u rs"
  by (cases r) simp_all

lemma decodes_Cons:
  assumes "decodes L rd (r # rs) = Some rd'"
  obtains tag s fl rd1 where "source_read 1 (d_input rd) = (Some tag, s)"
    and "switch_record_type L (hd tag) (rd\<lparr>d_input := s\<rparr>) = Inr (fl, rd1)"
    and "fl \<noteq> Return None" and "r = record_at L (hd tag) (src_bytes s)"
    and "decodes L rd1 rs = Some rd'"
  using assms
  by (auto simp: decodes.simps(2) split: prod.splits option.splits sum.splits flow.splits if_splits)

lemma decodes_stack_length:
  "decodes L rd rs = Some rd' \<Longrightarrow>
   popped u rs \<le> length (stack_of rd u) + pushed u rs
   \<and> length (stack_of rd' u) = length (stack_of rd u) + pushed u rs - popped u rs"
proof (induction rs arbitrary: rd)
  case Nil
  then show ?case by simp
next
  case (Cons r rs)
  from Cons.prems obtain tag s fl rd1 where
    sw: "switch_record_type L (hd tag) (rd\<lparr>d_input := s\<rparr>) = Inr (fl, rd1)"
      "fl \<noteq> Return None" "r = record_at L (hd tag) (src_bytes s)"
    and rest: "decodes L rd1 rs = Some rd'"
    by (rule decodes_Cons)
  have one: "popped u [r] \<le> length (stack_of rd u) + pushed u [r]
     \<and> length (stack_of rd1 u) = length (stack_of rd u) + pushed u [r] - popped u [r]"
    using round_stack_length [OF sw(1,2), of r u] sw(3) by simp
  have ih: "popped u rs \<le> length (stack_of rd1 u) + pushed u rs
     \<and> length (stack_of rd' u) = length (stack_of rd1 u) + pushed u rs - popped u rs"
    by (rule Cons.IH [OF rest])
  show ?case
    unfolding pushed_Cons [of u r rs] popped_Cons [of u r rs]
    using ih one by arith
qed

lemma decodes_push:
  assumes "src_bytes (d_input rd) = (t # payload) @ rest"
    and "recordType L t = Some FRAME_PUSH" and "length payload = sizeof_FramePush L"
  shows "decodes L rd (Push (decode_FramePush L payload) # rs) =
     decodes L
       (rd\<lparr>d_input := (d_input rd)\<lparr>src_bytes := rest\<rparr>,
           d_stack_traces := (d_stack_traces rd)
             (push_tid (decode_FramePush L payload) \<mapsto>
                stack_of rd (push_tid (decode_FramePush L payload))
                  @ [push_frame_id (decode_FramePush L payload)])\<rparr>) rs"
  using assms
  by (simp add: decodes.simps(2) source_read_def switch_record_type_def unless_parsed_def
      parseFramePush_def record_at_def Let_def)

lemma decodes_pop:
  assumes "src_bytes (d_input rd) = (t # payload) @ rest"
    and "recordType L t = Some FRAME_POP" and "length payload = sizeof_FramePop L"
    and "p = decode_FramePop L payload"
  shows "decodes L rd (Pop p # rs) =
     (if pop_count p \<le> length (stack_of rd (pop_tid p))
         \<and> (NDEBUG L \<or> stack_of rd (pop_tid p) \<noteq> [])
      then decodes L
             (rd\<lparr>d_input := (d_input rd)\<lparr>src_bytes := rest\<rparr>,
                 d_stack_traces :=
                   (if pop_count p = 0 then d_stack_traces rd
                    else (d_stack_traces rd)
                      (pop_tid p \<mapsto> take (length (stack_of rd (pop_tid p)) - pop_count p)
                                      (stack_of rd (pop_tid p))))\<rparr>) rs
      else None)"
proof (cases "pop_count p \<le> length (stack_of rd (pop_tid p))")
  case True
  then show ?thesis
    using assms
    by (simp add: decodes.simps(2) source_read_def switch_record_type_def unless_parsed_def
        parseFramePop_def record_at_def Let_def pop_back_loop_ok)
next
  case False
  then have "pop_back_loop (pop_count p) (stack_of rd (pop_tid p)) = Inl UndefinedBehaviour"
    by (simp add: pop_back_loop_under)
  with False show ?thesis
    using assms
    by (simp add: decodes.simps(2) source_read_def switch_record_type_def unless_parsed_def
        parseFramePop_def record_at_def Let_def)
qed

lemma parseFramePush_false_stacks:
  "parseFramePush L rd = Inr (False, rd') \<Longrightarrow> d_stack_traces rd' = d_stack_traces rd"
  by (auto simp: parseFramePush_def Let_def split: prod.splits option.splits)

lemma parseFramePop_false_stacks:
  "parseFramePop L rd = Inr (False, rd') \<Longrightarrow> d_stack_traces rd' = d_stack_traces rd"
  by (auto simp: parseFramePop_def Let_def split: prod.splits option.splits if_splits sum.splits)

lemma switch_false_stacks:
  "switch_record_type L t rd = Inr (Return None, rd') \<Longrightarrow> d_stack_traces rd' = d_stack_traces rd"
  unfolding switch_record_type_def
  by (auto simp: LOG_ERROR_def
      split: option.splits RecordType.splits prod.splits sum.splits if_splits
      dest!: unless_parsed_Inr parseFramePush_false_stacks parseFramePop_false_stacks
        parseFrameIndex_stacks parseNativeFrameIndex_stacks parseSegmentHeader_stacks
        parseThreadRecord_stacks parseAllocationRecord_stacks)

lemma nextAllocationRecord_decodes:
  "nextAllocationRecord L rd = Inr (r, rd') \<Longrightarrow>
   \<exists>rs rd1. decodes L rd rs = Some rd1 \<and> stack_of rd' = stack_of rd1 \<and> (r \<noteq> None \<longrightarrow> rd1 = rd')"
proof (induction L rd rule: nextAllocationRecord.induct)
  case (1 L rd)
  obtain x s where rs: "source_read 1 (d_input rd) = (x, s)" by (cases "source_read 1 (d_input rd)")
  show ?case
  proof (cases x)
    case None
    with rs "1.prems" have "rd' = rd\<lparr>d_input := s\<rparr>"
      by (subst (asm) nextAllocationRecord.simps) simp
    then have "decodes L rd [] = Some rd \<and> stack_of rd' = stack_of rd" by simp
    moreover from None rs "1.prems" have "r = None"
      by (subst (asm) nextAllocationRecord.simps) simp
    ultimately show ?thesis by blast
  next
    case (Some tag)
    show ?thesis
    proof (cases "switch_record_type L (hd tag) (rd\<lparr>d_input := s\<rparr>)")
      case (Inl e)
      with rs Some "1.prems" show ?thesis
        by (subst (asm) nextAllocationRecord.simps) simp
    next
      case (Inr y)
      obtain fl rd1 where y: "y = (fl, rd1)" by (cases y)
      show ?thesis
      proof (cases fl)
        case Break
        with rs Some Inr y "1.prems" have "nextAllocationRecord L rd1 = Inr (r, rd')"
          by (subst (asm) nextAllocationRecord.simps) simp
        then obtain rs' rd2 where ih: "decodes L rd1 rs' = Some rd2" "stack_of rd' = stack_of rd2"
          "r \<noteq> None \<longrightarrow> rd2 = rd'"
          using "1.IH" [OF rs [symmetric] Some Inr y [symmetric] Break] by blast
        have "decodes L rd (record_at L (hd tag) (src_bytes s) # rs') = Some rd2"
          using rs Some Inr y Break ih(1) by (simp add: decodes.simps(2))
        with ih(2,3) show ?thesis by blast
      next
        case (Return res)
        with rs Some Inr y "1.prems" have eq: "rd' = rd1" "res = r"
          by (subst (asm) nextAllocationRecord.simps, simp)+
        show ?thesis
        proof (cases r)
          case None
          with Inr y Return eq have "d_stack_traces rd' = d_stack_traces (rd\<lparr>d_input := s\<rparr>)"
            using switch_false_stacks [of L "hd tag" "rd\<lparr>d_input := s\<rparr>" rd'] by simp
          then have "decodes L rd [] = Some rd \<and> stack_of rd' = stack_of rd"
            by (simp add: stack_of_def fun_eq_iff)
          with None show ?thesis by blast
        next
          case (Some a)
          then have "decodes L rd [record_at L (hd tag) (src_bytes s)] = Some rd'"
            using rs \<open>x = Some tag\<close> Inr y Return eq by (simp add: decodes.simps(2))
          then show ?thesis by blast
        qed
      qed
    qed
  qed
qed

lemma decodes_round:
  assumes "src_bytes (d_input rd) = t # rest"
    and "switch_record_type L t (rd\<lparr>d_input := (d_input rd)\<lparr>src_bytes := rest\<rparr>\<rparr>) = Inr (fl, rd1)"
    and "fl \<noteq> Return None" and "r = record_at L t rest"
  shows "decodes L rd (r # rs) = decodes L rd1 rs"
  using assms by (cases fl) (auto simp: decodes.simps(2) source_read_def)

lemma round_index_2_f:
  "switch_record_type lp64 0x49 (reader_on (tl wire_index_2_f @ rest) True) =
     Inr (Break, (reader_on rest True)\<lparr>d_frame_map := [2 \<mapsto> frame_f]\<rparr>)"
  by (simp add: switch_record_type_def unless_parsed_def parseFrameIndex_def source_read_def
      source_getline_def wire_index_2_f_def reader_on_def lp64_simps frame_f_def Let_def)

lemma round_alloc_7_12:
  "switch_record_type lp64 0x41
     ((reader_on (tl wire_alloc_7_12 @ rest) True)
        \<lparr>d_stack_traces := [7 \<mapsto> [2, 2]], d_frame_map := [2 \<mapsto> frame_f]\<rparr>) =
     Inr (Return (Some \<lparr>alloc_record = alloc_7_12, frame_index = 2, native_segment_generation = 0\<rparr>),
          (reader_on rest True)
            \<lparr>d_stack_traces := [7 \<mapsto> [2, 1]],
             d_frame_map := [2 \<mapsto> frame_f, 1 \<mapsto> frame_f\<lparr>lineno := 12\<rparr>],
             d_allocation_frames :=
               \<lparr>fc_ids = [frame_f\<lparr>lineno := 12\<rparr> \<mapsto> 1], fc_index = 3, fc_increment = 2\<rparr>,
             d_tree := root_tree @ [\<lparr>node_frame_id = 2, node_parent_index = 0\<rparr>,
                                    \<lparr>node_frame_id = 1, node_parent_index = 1\<rparr>]\<rparr>)"
proof -
  let ?rd = "(reader_on (tl wire_alloc_7_12 @ rest) True)
        \<lparr>d_stack_traces := [7 \<mapsto> [2, 2]], d_frame_map := [2 \<mapsto> frame_f]\<rparr>"
  let ?rd1 = "(reader_on rest True)
        \<lparr>d_stack_traces := [7 \<mapsto> [2, 2]], d_frame_map := [2 \<mapsto> frame_f]\<rparr>"
  have p: "parseAllocationRecord lp64 ?rd = (Some alloc_7_12, ?rd1)"
    using decode_alloc_7_12
    by (simp add: parseAllocationRecord_def source_read_def reader_on_def wire_alloc_7_12_def
        lp64_def)
  have t: "getTraceIndex root_tree [2, 1] =
      (2, root_tree @ [\<lparr>node_frame_id = 2, node_parent_index = 0\<rparr>,
                       \<lparr>node_frame_id = 1, node_parent_index = 1\<rparr>])"
    by (simp add: getTraceIndex_def getChildIndex_def find_child_def root_tree_def upt_rec)
  have g: "getAllocationFrameIndex alloc_7_12 ?rd1 =
      Inr (2, (reader_on rest True)
            \<lparr>d_stack_traces := [7 \<mapsto> [2, 1]],
             d_frame_map := [2 \<mapsto> frame_f, 1 \<mapsto> frame_f\<lparr>lineno := 12\<rparr>],
             d_allocation_frames :=
               \<lparr>fc_ids = [frame_f\<lparr>lineno := 12\<rparr> \<mapsto> 1], fc_index = 3, fc_increment = 2\<rparr>,
             d_tree := root_tree @ [\<lparr>node_frame_id = 2, node_parent_index = 0\<rparr>,
                                    \<lparr>node_frame_id = 1, node_parent_index = 1\<rparr>]\<rparr>)"
    by (simp add: getAllocationFrameIndex_def correctAllocationFrame_def getIndex_def
        map_emplace_def reader_on_def alloc_7_12_def frame_f_def t Let_def)
  have r: "recordType lp64 0x41 = Some ALLOCATION" by (simp add: lp64_simps)
  have sg: "currentSegmentGeneration (d_symbol_resolver (reader_on rest True)) = 0"
    by (simp add: currentSegmentGeneration_def reader_on_def)
  show ?thesis
    by (simp add: switch_record_type_def r p g sg)
qed

lemma decode_push_7_2:
  "decode_FramePush lp64 (tl wire_push_7_2) = \<lparr>push_tid = 7, push_frame_id = 2\<rparr>"
  by (simp add: wire_push_7_2_def lp64_simps)

lemma decode_pop_7: "n < 256 \<Longrightarrow>
  decode_FramePop lp64 (tl (wire_pop_7 (of_nat n))) = \<lparr>pop_tid = 7, pop_count = n\<rparr>"
  by (simp add: wire_pop_7_def lp64_simps unat_of_nat take_bit_nat_eq_self)

lemma tags_ex:
  "recordType lp64 0x49 = Some FRAME_INDEX" "recordType lp64 0x50 = Some FRAME_PUSH"
  "recordType lp64 0x41 = Some ALLOCATION" "recordType lp64 0x4F = Some FRAME_POP"
  by (simp_all add: lp64_simps)

lemma decodes_stream_ex: "decodes lp64 (reader_on stream_ex True) records_ex = Some reader_ex"
proof -
  let ?r1 = "wire_push_7_2 @ wire_push_7_2 @ wire_alloc_7_12 @ wire_pop_7 0 @ wire_pop_7 1"
  let ?r2 = "wire_push_7_2 @ wire_alloc_7_12 @ wire_pop_7 0 @ wire_pop_7 1"
  let ?r3 = "wire_alloc_7_12 @ wire_pop_7 0 @ wire_pop_7 1"
  let ?r4 = "wire_pop_7 0 @ wire_pop_7 1"
  let ?R1 = "(reader_on ?r1 True)\<lparr>d_frame_map := [2 \<mapsto> frame_f]\<rparr>"
  let ?R2 = "(reader_on ?r2 True)\<lparr>d_stack_traces := [7 \<mapsto> [2]], d_frame_map := [2 \<mapsto> frame_f]\<rparr>"
  let ?R3 = "(reader_on ?r3 True)\<lparr>d_stack_traces := [7 \<mapsto> [2, 2]], d_frame_map := [2 \<mapsto> frame_f]\<rparr>"
  let ?R4 = "reader_ex\<lparr>d_input := \<lparr>src_bytes = ?r4, src_open = True\<rparr>,
                       d_stack_traces := [7 \<mapsto> [2, 1]]\<rparr>"
  let ?R5 = "reader_ex\<lparr>d_input := \<lparr>src_bytes = wire_pop_7 1, src_open = True\<rparr>,
                       d_stack_traces := [7 \<mapsto> [2, 1]]\<rparr>"
  have 1: "decodes lp64 (reader_on stream_ex True) (Other # rs) = decodes lp64 ?R1 rs" for rs
  proof (rule decodes_round)
    show "src_bytes (d_input (reader_on stream_ex True)) = 0x49 # (tl wire_index_2_f @ ?r1)"
      by (simp add: reader_on_def stream_ex_def wire_index_2_f_def)
    show "switch_record_type lp64 0x49
        ((reader_on stream_ex True)\<lparr>d_input := (d_input (reader_on stream_ex True))
             \<lparr>src_bytes := tl wire_index_2_f @ ?r1\<rparr>\<rparr>) = Inr (Break, ?R1)"
      using round_index_2_f [of ?r1] by (simp add: reader_on_def)
    show "Break \<noteq> Return None" by simp
    show "Other = record_at lp64 0x49 (tl wire_index_2_f @ ?r1)"
      by (simp add: record_at_def tags_ex)
  qed
  have 2: "decodes lp64 ?R1 (Push \<lparr>push_tid = 7, push_frame_id = 2\<rparr> # rs) = decodes lp64 ?R2 rs" for rs
    using decodes_push [of ?R1 "0x50" "tl wire_push_7_2" ?r2 lp64 rs]
    by (simp add: decode_push_7_2 tags_ex)
      (simp add: reader_on_def wire_push_7_2_def lp64_def stack_of_def)
  have 3: "decodes lp64 ?R2 (Push \<lparr>push_tid = 7, push_frame_id = 2\<rparr> # rs) = decodes lp64 ?R3 rs" for rs
    using decodes_push [of ?R2 "0x50" "tl wire_push_7_2" ?r3 lp64 rs]
    by (simp add: decode_push_7_2 tags_ex)
      (simp add: reader_on_def wire_push_7_2_def lp64_def stack_of_def)
  have 4: "decodes lp64 ?R3 (Other # rs) = decodes lp64 ?R4 rs" for rs
  proof (rule decodes_round)
    show "src_bytes (d_input ?R3) = 0x41 # (tl wire_alloc_7_12 @ ?r4)"
      by (simp add: reader_on_def wire_alloc_7_12_def)
    show "switch_record_type lp64 0x41
        (?R3\<lparr>d_input := (d_input ?R3)\<lparr>src_bytes := tl wire_alloc_7_12 @ ?r4\<rparr>\<rparr>) =
        Inr (Return (Some \<lparr>alloc_record = alloc_7_12, frame_index = 2,
                            native_segment_generation = 0\<rparr>), ?R4)"
      using round_alloc_7_12 [of ?r4] by (simp add: reader_on_def reader_ex_def)
    show "Return (Some \<lparr>alloc_record = alloc_7_12, frame_index = 2,
                         native_segment_generation = 0\<rparr>) \<noteq> Return None"
      by simp
    show "Other = record_at lp64 0x41 (tl wire_alloc_7_12 @ ?r4)"
      by (simp add: record_at_def tags_ex)
  qed
  have nd: "NDEBUG lp64" by (simp add: lp64_def)
  have l: "\<And>n. length (tl (wire_pop_7 n)) = sizeof_FramePop lp64"
    by (simp add: wire_pop_7_def lp64_def)
  have 5: "decodes lp64 ?R4 (Pop \<lparr>pop_tid = 7, pop_count = 0\<rparr> # rs) = decodes lp64 ?R5 rs" for rs
  proof -
    have b: "src_bytes (d_input ?R4) = (0x4F # tl (wire_pop_7 0)) @ wire_pop_7 1"
      by (simp add: wire_pop_7_def)
    have d: "\<lparr>pop_tid = 7, pop_count = 0\<rparr> = decode_FramePop lp64 (tl (wire_pop_7 0))"
      using decode_pop_7 [of 0] by simp
    have st: "stack_of ?R4 7 = [2, 1]" by (simp add: stack_of_def)
    show ?thesis
      using decodes_pop [OF b tags_ex(4) l d, of rs] st nd by simp
  qed
  have 6: "decodes lp64 ?R5 (Pop \<lparr>pop_tid = 7, pop_count = 1\<rparr> # rs) = decodes lp64 reader_ex rs" for rs
  proof -
    have b: "src_bytes (d_input ?R5) = (0x4F # tl (wire_pop_7 1)) @ []"
      by (simp add: wire_pop_7_def)
    have d: "\<lparr>pop_tid = 7, pop_count = 1\<rparr> = decode_FramePop lp64 (tl (wire_pop_7 1))"
      using decode_pop_7 [of 1] by simp
    have st: "stack_of ?R5 7 = [2, 1]" by (simp add: stack_of_def)
    have e: "reader_ex\<lparr>d_input := \<lparr>src_bytes = [], src_open = True\<rparr>,
                       d_stack_traces := [7 \<mapsto> [2]]\<rparr> = reader_ex"
      by (simp add: reader_ex_def reader_on_def)
    show ?thesis
      using decodes_pop [OF b tags_ex(4) l d, of rs] st nd by (simp add: e)
  qed
  show ?thesis
    unfolding records_ex_def 1 2 3 4 5 6 by simp
qed

lemma pop_under_undefined:
  assumes "src_bytes (d_input rd) = (t # payload) @ rest"
    and "recordType L t = Some FRAME_POP" and "length payload = sizeof_FramePop L"
    and "length (stack_of rd (pop_tid (decode_FramePop L payload))) < pop_count (decode_FramePop L payload)"
    and "NDEBUG L \<or> stack_of rd (pop_tid (decode_FramePop L payload)) \<noteq> []"
  shows "nextAllocationRecord L rd = Inl UndefinedBehaviour"
proof -
  let ?rd1 = "rd\<lparr>d_input := (d_input rd)\<lparr>src_bytes := payload @ rest\<rparr>\<rparr>"
  have rd: "source_read (sizeof_FramePop L) (d_input ?rd1) =
      (Some payload, (d_input rd)\<lparr>src_bytes := rest\<rparr>)"
    using source_read_append [of "d_input ?rd1" payload rest "sizeof_FramePop L"] assms(3)
    by simp
  have st: "stack_of ?rd1 = stack_of rd"
    by (simp add: stack_of_def fun_eq_iff)
  have "parseFramePop L ?rd1 = Inl UndefinedBehaviour"
    unfolding parseFramePop_def rd st using assms(4,5)
    by (simp add: Let_def pop_back_loop_under)
  then show ?thesis
    using assms(1,2) next_tag [of rd t "payload @ rest" L]
    by (simp add: switch_record_type_def unless_parsed_def)
qed

lemma pop_empty_asserts:
  assumes "src_bytes (d_input rd) = (t # payload) @ rest"
    and "recordType L t = Some FRAME_POP" and "length payload = sizeof_FramePop L"
    and "stack_of rd (pop_tid (decode_FramePop L payload)) = []" and "\<not> NDEBUG L"
  shows "nextAllocationRecord L rd = Inl AssertionFailed"
proof -
  let ?rd1 = "rd\<lparr>d_input := (d_input rd)\<lparr>src_bytes := payload @ rest\<rparr>\<rparr>"
  have rd: "source_read (sizeof_FramePop L) (d_input ?rd1) =
      (Some payload, (d_input rd)\<lparr>src_bytes := rest\<rparr>)"
    using source_read_append [of "d_input ?rd1" payload rest "sizeof_FramePop L"] assms(3)
    by simp
  have st: "stack_of ?rd1 = stack_of rd"
    by (simp add: stack_of_def fun_eq_iff)
  have "parseFramePop L ?rd1 = Inl AssertionFailed"
    unfolding parseFramePop_def rd st using assms(4,5)
    by (simp add: Let_def)
  then show ?thesis
    using assms(1,2) next_tag [of rd t "payload @ rest" L]
    by (simp add: switch_record_type_def unless_parsed_def)
qed

text \<open>
  C4, as amended. Whenever the decode loop has processed records \<open>rs\<close> of whatever types,
  the stack of every thread \<open>u\<close> has grown by \<open>N - M\<close>, where \<open>N\<close> is the number of the
  FRAME_PUSH records for \<open>u\<close> among \<open>rs\<close> and \<open>M\<close> the sum of the counts of its FRAME_POP
  records, and \<open>M\<close> is at most \<open>N\<close> plus the length before: from the empty stacks of a new
  reader, the length is \<open>N - M\<close> and \<open>M \<le> N\<close>. Every call of \<open>nextAllocationRecord\<close> that
  returns has processed such a sequence of records (and then, when it returns \<open>false\<close>,
  left the stacks as they were). A FRAME_PUSH record is always processed. A FRAME_POP
  record is processed exactly when it finds at least \<open>count\<close> frames on the stack of its
  thread and, unless assertions are compiled out, a stack that is not empty: then the
  stack loses its last \<open>count\<close> frames, and a count of 0 leaves the stacks as they were;
  otherwise the loop does not process the record.
\<close>

theorem C4_frame_stack_length:
  "(decodes L rd rs = Some rd' \<longrightarrow>
      popped u rs \<le> length (stack_of rd u) + pushed u rs
      \<and> length (stack_of rd' u) = length (stack_of rd u) + pushed u rs - popped u rs)
   \<and> (nextAllocationRecord L rd = Inr (r, rd2) \<longrightarrow>
      (\<exists>rs rd1. decodes L rd rs = Some rd1 \<and> stack_of rd2 = stack_of rd1
         \<and> (r \<noteq> None \<longrightarrow> rd1 = rd2)))
   \<and> (src_bytes (d_input rd) = (t # payload) @ rest \<and> recordType L t = Some FRAME_PUSH
        \<and> length payload = sizeof_FramePush L \<and> f = decode_FramePush L payload \<longrightarrow>
      decodes L rd (Push f # rs) =
        decodes L
          (rd\<lparr>d_input := (d_input rd)\<lparr>src_bytes := rest\<rparr>,
              d_stack_traces :=
                (d_stack_traces rd)(push_tid f \<mapsto> stack_of rd (push_tid f) @ [push_frame_id f])\<rparr>)
          rs)
   \<and> (src_bytes (d_input rd) = (t # payload) @ rest \<and> recordType L t = Some FRAME_POP
        \<and> length payload = sizeof_FramePop L \<and> p = decode_FramePop L payload \<longrightarrow>
      decodes L rd (Pop p # rs) =
        (if pop_count p \<le> length (stack_of rd (pop_tid p))
            \<and> (NDEBUG L \<or> stack_of rd (pop_tid p) \<noteq> [])
         then decodes L
                (rd\<lparr>d_input := (d_input rd)\<lparr>src_bytes := rest\<rparr>,
                    d_stack_traces :=
                      (if pop_count p = 0 then d_stack_traces rd
                       else (d_stack_traces rd)
                         (pop_tid p \<mapsto> take (length (stack_of rd (pop_tid p)) - pop_count p)
                                         (stack_of rd (pop_tid p))))\<rparr>)
                rs
         else None))"
proof (intro conjI impI)
  assume "decodes L rd rs = Some rd'"
  then have "popped u rs \<le> length (stack_of rd u) + pushed u rs
      \<and> length (stack_of rd' u) = length (stack_of rd u) + pushed u rs - popped u rs"
    by (rule decodes_stack_length)
  then show "popped u rs \<le> length (stack_of rd u) + pushed u rs"
    and "length (stack_of rd' u) = length (stack_of rd u) + pushed u rs - popped u rs"
    by simp_all
next
  assume "nextAllocationRecord L rd = Inr (r, rd2)"
  then show "\<exists>rs rd1. decodes L rd rs = Some rd1 \<and> stack_of rd2 = stack_of rd1
         \<and> (r \<noteq> None \<longrightarrow> rd1 = rd2)"
    by (rule nextAllocationRecord_decodes)
next
  assume a: "src_bytes (d_input rd) = (t # payload) @ rest \<and> recordType L t = Some FRAME_PUSH
        \<and> length payload = sizeof_FramePush L \<and> f = decode_FramePush L payload"
  then have "decodes L rd (Push (decode_FramePush L payload) # rs) =
     decodes L
       (rd\<lparr>d_input := (d_input rd)\<lparr>src_bytes := rest\<rparr>,
           d_stack_traces := (d_stack_traces rd)
             (push_tid (decode_FramePush L payload) \<mapsto>
                stack_of rd (push_tid (decode_FramePush L payload))
                  @ [push_frame_id (decode_FramePush L payload)])\<rparr>) rs"
    using decodes_push [of rd t payload rest L rs] by blast
  with a show "decodes L rd (Push f # rs) =
        decodes L
          (rd\<lparr>d_input := (d_input rd)\<lparr>src_bytes := rest\<rparr>,
              d_stack_traces :=
                (d_stack_traces rd)(push_tid f \<mapsto> stack_of rd (push_tid f) @ [push_frame_id f])\<rparr>)
          rs"
    by simp
next
  assume "src_bytes (d_input rd) = (t # payload) @ rest \<and> recordType L t = Some FRAME_POP
        \<and> length payload = sizeof_FramePop L \<and> p = decode_FramePop L payload"
  then show "decodes L rd (Pop p # rs) =
        (if pop_count p \<le> length (stack_of rd (pop_tid p))
            \<and> (NDEBUG L \<or> stack_of rd (pop_tid p) \<noteq> [])
         then decodes L
                (rd\<lparr>d_input := (d_input rd)\<lparr>src_bytes := rest\<rparr>,
                    d_stack_traces :=
                      (if pop_count p = 0 then d_stack_traces rd
                       else (d_stack_traces rd)
                         (pop_tid p \<mapsto> take (length (stack_of rd (pop_tid p)) - pop_count p)
                                         (stack_of rd (pop_tid p))))\<rparr>)
                rs
         else None)"
    using decodes_pop [of rd t payload rest L p rs] by blast
qed

theorem C4_frame_stack_length_witness:
  "decodes lp64 (reader_on stream_ex True) records_ex = Some reader_ex
   \<and> pushed 7 records_ex = 2 \<and> popped 7 records_ex = 1
   \<and> length (stack_of (reader_on stream_ex True) 7) = 0 \<and> length (stack_of reader_ex 7) = 1
   \<and> (\<exists>rs. decodes lp64 (reader_on wire_alloc_7_12 True) rs = Some (reader_on [] True))
   \<and> decodes lp64 (reader_on wire_push_7_1 True) [Push \<lparr>push_tid = 7, push_frame_id = 1\<rparr>]
       = Some ((reader_on [] True)\<lparr>d_stack_traces := [7 \<mapsto> [1]]\<rparr>)
   \<and> decodes lp64 ((reader_on (wire_pop_7 0) True)\<lparr>d_stack_traces := [7 \<mapsto> [1]]\<rparr>)
        [Pop \<lparr>pop_tid = 7, pop_count = 0\<rparr>]
       = Some ((reader_on [] True)\<lparr>d_stack_traces := [7 \<mapsto> [1]]\<rparr>)
   \<and> decodes lp64 (reader_on (wire_pop_7 1) True) [Pop \<lparr>pop_tid = 7, pop_count = 1\<rparr>] = None"
proof -
  have a: "decodes lp64 (reader_on stream_ex True) records_ex = Some reader_ex"
    by (rule decodes_stream_ex)
  have n: "pushed 7 records_ex = 2" "popped 7 records_ex = 1"
    "length (stack_of (reader_on stream_ex True) 7) = 0"
    by (simp_all add: records_ex_def stack_of_def reader_on_def)
  have 1: "length (stack_of reader_ex 7) = 1"
    using C4_frame_stack_length [of lp64 "reader_on stream_ex True" records_ex reader_ex 7,
        THEN conjunct1, THEN mp, OF a] n
    by simp
  have 2: "\<exists>rs. decodes lp64 (reader_on wire_alloc_7_12 True) rs = Some (reader_on [] True)"
    using C4_frame_stack_length [THEN conjunct2, THEN conjunct1, THEN mp, OF next_alloc_7_12]
    by auto
  have hp: "src_bytes (d_input (reader_on wire_push_7_1 True)) = (0x50 # tl wire_push_7_1) @ []
      \<and> recordType lp64 0x50 = Some FRAME_PUSH
      \<and> length (tl wire_push_7_1) = sizeof_FramePush lp64
      \<and> \<lparr>push_tid = 7, push_frame_id = 1\<rparr> = decode_FramePush lp64 (tl wire_push_7_1)"
    by (simp add: reader_on_def wire_push_7_1_def lp64_simps)
  have 3: "decodes lp64 (reader_on wire_push_7_1 True) [Push \<lparr>push_tid = 7, push_frame_id = 1\<rparr>]
       = Some ((reader_on [] True)\<lparr>d_stack_traces := [7 \<mapsto> [1]]\<rparr>)"
  proof -
    have e: "(reader_on wire_push_7_1 True)
        \<lparr>d_input := (d_input (reader_on wire_push_7_1 True))\<lparr>src_bytes := []\<rparr>,
         d_stack_traces := (d_stack_traces (reader_on wire_push_7_1 True))
           (7 \<mapsto> stack_of (reader_on wire_push_7_1 True) 7 @ [1])\<rparr>
        = (reader_on [] True)\<lparr>d_stack_traces := [7 \<mapsto> [1]]\<rparr>"
      by (simp add: reader_on_def stack_of_def)
    show ?thesis
      using C4_frame_stack_length [THEN conjunct2, THEN conjunct2, THEN conjunct1, THEN mp,
          OF hp, of "[]"]
      by (simp add: e)
  qed
  let ?one = "(reader_on (wire_pop_7 0) True)\<lparr>d_stack_traces := [7 \<mapsto> [1]]\<rparr>"
  have nd: "NDEBUG lp64" by (simp add: lp64_def)
  have h0: "src_bytes (d_input ?one) = (0x4F # tl (wire_pop_7 0)) @ []
      \<and> recordType lp64 0x4F = Some FRAME_POP
      \<and> length (tl (wire_pop_7 0)) = sizeof_FramePop lp64
      \<and> \<lparr>pop_tid = 7, pop_count = 0\<rparr> = decode_FramePop lp64 (tl (wire_pop_7 0))"
    by (simp add: reader_on_def wire_pop_7_def lp64_simps)
  have 4: "decodes lp64 ?one [Pop \<lparr>pop_tid = 7, pop_count = 0\<rparr>]
       = Some ((reader_on [] True)\<lparr>d_stack_traces := [7 \<mapsto> [1]]\<rparr>)"
  proof -
    have st: "stack_of ?one 7 = [1]" by (simp add: stack_of_def)
    show ?thesis
      using C4_frame_stack_length [THEN conjunct2, THEN conjunct2, THEN conjunct2, THEN mp,
          OF h0, of "[]"] st nd
      by (simp add: reader_on_def)
  qed
  have h1: "src_bytes (d_input (reader_on (wire_pop_7 1) True)) = (0x4F # tl (wire_pop_7 1)) @ []
      \<and> recordType lp64 0x4F = Some FRAME_POP
      \<and> length (tl (wire_pop_7 1)) = sizeof_FramePop lp64
      \<and> \<lparr>pop_tid = 7, pop_count = 1\<rparr> = decode_FramePop lp64 (tl (wire_pop_7 1))"
    by (simp add: reader_on_def wire_pop_7_def lp64_simps)
  have 5: "decodes lp64 (reader_on (wire_pop_7 1) True) [Pop \<lparr>pop_tid = 7, pop_count = 1\<rparr>] = None"
  proof -
    have st: "stack_of (reader_on (wire_pop_7 1) True) 7 = []"
      by (simp add: stack_of_def reader_on_def)
    show ?thesis
      using C4_frame_stack_length [THEN conjunct2, THEN conjunct2, THEN conjunct2, THEN mp,
          OF h1, of "[]"] st
      by simp
  qed
  show ?thesis
    using a n 1 2 3 4 5 by simp
qed

text \<open>
  The bound \<open>M \<le> N\<close> over the whole stream is not enough, and a count of 0 is not always
  harmless: FRAME_POP(count 1) followed by FRAME_PUSH has \<open>M = N = 1\<close>, yet the pop meets an
  empty stack, which is undefined behaviour when assertions are compiled out and an
  \<open>abort()\<close> otherwise; and a FRAME_POP with count 0 on an empty stack fails the assertion.
\<close>

theorem C4_pop_before_push_counterexample:
  "record_at lp64 0x4F (tl (wire_pop_7 1) @ wire_push_7_1) = Pop \<lparr>pop_tid = 7, pop_count = 1\<rparr>
   \<and> record_at lp64 0x50 (tl wire_push_7_1) = Push \<lparr>push_tid = 7, push_frame_id = 1\<rparr>
   \<and> popped 7 [Pop \<lparr>pop_tid = 7, pop_count = 1\<rparr>, Push \<lparr>push_tid = 7, push_frame_id = 1\<rparr>]
     \<le> pushed 7 [Pop \<lparr>pop_tid = 7, pop_count = 1\<rparr>, Push \<lparr>push_tid = 7, push_frame_id = 1\<rparr>]
   \<and> nextAllocationRecord lp64 (reader_on (wire_pop_7 1 @ wire_push_7_1) True)
        = Inl UndefinedBehaviour
   \<and> nextAllocationRecord (lp64\<lparr>NDEBUG := False\<rparr>)
        (reader_on (wire_pop_7 1 @ wire_push_7_1) True) = Inl AssertionFailed
   \<and> nextAllocationRecord (lp64\<lparr>NDEBUG := False\<rparr>) (reader_on (wire_pop_7 0) True)
        = Inl AssertionFailed"
proof -
  have 1: "nextAllocationRecord lp64 (reader_on (wire_pop_7 1 @ wire_push_7_1) True)
        = Inl UndefinedBehaviour"
    by (rule pop_under_undefined [where t = "0x4F" and payload = "tl (wire_pop_7 1)"
          and rest = wire_push_7_1])
      (simp_all add: reader_on_def wire_pop_7_def lp64_simps stack_of_def)
  have 2: "nextAllocationRecord (lp64\<lparr>NDEBUG := False\<rparr>)
        (reader_on (wire_pop_7 1 @ wire_push_7_1) True) = Inl AssertionFailed"
    by (rule pop_empty_asserts [where t = "0x4F" and payload = "tl (wire_pop_7 1)"
          and rest = wire_push_7_1])
      (simp_all add: reader_on_def wire_pop_7_def lp64_simps stack_of_def)
  have 3: "nextAllocationRecord (lp64\<lparr>NDEBUG := False\<rparr>) (reader_on (wire_pop_7 0) True)
        = Inl AssertionFailed"
    by (rule pop_empty_asserts [where t = "0x4F" and payload = "tl (wire_pop_7 0)"
          and rest = "[]"])
      (simp_all add: reader_on_def wire_pop_7_def lp64_simps stack_of_def)
  have 4: "record_at lp64 0x4F (tl (wire_pop_7 1) @ wire_push_7_1) = Pop \<lparr>pop_tid = 7, pop_count = 1\<rparr>"
    "record_at lp64 0x50 (tl wire_push_7_1) = Push \<lparr>push_tid = 7, push_frame_id = 1\<rparr>"
    by (simp_all add: record_at_def wire_pop_7_def wire_push_7_1_def lp64_simps)
  show ?thesis
    using 1 2 3 4 by simp
qed


text \<open>
  C5. After FRAME_PUSH(tid 7, frame 1), a FRAME_POP(tid 7, count 2) passes the assertion
  (the stack is not empty), pops the one frame and then calls \<open>pop_back\<close> on the empty
  vector: undefined behaviour, with and without \<open>NDEBUG\<close>. No exception is thrown.
\<close>

theorem C5_under_pop_undefined:
  "nextAllocationRecord lp64 (reader_on (concat [wire_push_7_1, wire_pop_7 2]) True)
     = Inl UndefinedBehaviour
   \<and> nextAllocationRecord (lp64\<lparr>NDEBUG := False\<rparr>)
        (reader_on (concat [wire_push_7_1, wire_pop_7 2]) True) = Inl UndefinedBehaviour"
proof -
  let ?rd = "reader_on (concat [wire_push_7_1, wire_pop_7 2]) True"
  let ?rd2 = "?rd\<lparr>d_input := (d_input ?rd)\<lparr>src_bytes := wire_pop_7 2\<rparr>,
           d_stack_traces := (d_stack_traces ?rd)(7 \<mapsto> [1])\<rparr>"
  have b: "src_bytes (d_input ?rd) = (0x50 # tl wire_push_7_1) @ wire_pop_7 2"
    by (simp add: reader_on_def wire_push_7_1_def)
  have s1: "nextAllocationRecord lp64 ?rd = nextAllocationRecord lp64 ?rd2"
    using next_push [OF b, of lp64]
    by (simp add: wire_push_7_1_def lp64_simps reader_on_def stack_of_def)
  have s1': "nextAllocationRecord (lp64\<lparr>NDEBUG := False\<rparr>) ?rd
      = nextAllocationRecord (lp64\<lparr>NDEBUG := False\<rparr>) ?rd2"
    using next_push [OF b, of "lp64\<lparr>NDEBUG := False\<rparr>"]
    by (simp add: wire_push_7_1_def lp64_simps reader_on_def stack_of_def)
  have s2: "nextAllocationRecord lp64 ?rd2 = Inl UndefinedBehaviour"
    by (rule pop_under_undefined [where t = "0x4F" and payload = "tl (wire_pop_7 2)" and rest = "[]"])
      (simp_all add: reader_on_def wire_pop_7_def lp64_simps stack_of_def)
  have s2': "nextAllocationRecord (lp64\<lparr>NDEBUG := False\<rparr>) ?rd2 = Inl UndefinedBehaviour"
    by (rule pop_under_undefined [where t = "0x4F" and payload = "tl (wire_pop_7 2)" and rest = "[]"])
      (simp_all add: reader_on_def wire_pop_7_def lp64_simps stack_of_def)
  show ?thesis using s1 s1' s2 s2' by simp
qed

section \<open>The ways the decode loop ends with \<open>false\<close>\<close>










lemma exhausted_input [simp]:
  "exhausted (rd\<lparr>d_input := (d_input rd)\<lparr>src_bytes := bs\<rparr>\<rparr>) = exhausted rd"
  "src_open (d_input (exhausted rd)) = src_open (d_input rd)"
  "src_bytes (d_input (exhausted rd)) = []"
  "d_log (exhausted rd) = d_log rd"
  by (simp_all add: exhausted_def)
















section \<open>The linenos of a stack trace\<close>







section \<open>Hybrid traces end with the last interpreter frame\<close>

lemma hybrid_loop_exhausted [simp]: "hybrid_loop (Some 0) python_stack native = ([], None)"
  by (cases native) auto

lemma hybrid_loop_last_trampoline:
  assumes "is_eval_frame (fst e)"
    and "length (eval_frames pre) + 1 = length python_stack"
  shows "hybrid_loop (Some (int (length python_stack))) python_stack (pre @ e # post)
       = hybrid_loop (Some (int (length python_stack))) python_stack (pre @ [e])
     \<and> snd (hybrid_loop (Some (int (length python_stack))) python_stack (pre @ [e])) = None
     \<and> fst (hybrid_loop (Some (int (length python_stack))) python_stack (pre @ [e])) \<noteq> []
     \<and> last (fst (hybrid_loop (Some (int (length python_stack))) python_stack (pre @ [e])))
         = last python_stack"
  using assms(2)
proof (induction pre arbitrary: python_stack)
  case Nil
  then obtain p where "python_stack = [p]"
    by (cases python_stack) (auto simp: eval_frames_def)
  then show ?case using assms(1) by simp
next
  case (Cons x pre)
  show ?case
  proof (cases "is_eval_frame (fst x)")
    case True
    with Cons.prems obtain p ps where ps: "python_stack = p # ps"
      "length (eval_frames pre) + 1 = length ps"
      by (cases python_stack) (auto simp: eval_frames_def)
    then have "ps \<noteq> []" by auto
    with Cons.IH [OF ps(2)] ps True show ?thesis
      by (auto split: prod.splits)
  next
    case False
    with Cons.prems have "length (eval_frames pre) + 1 = length python_stack"
      by (simp add: eval_frames_def)
    from Cons.IH [OF this] False Cons.prems show ?thesis
      by (auto split: prod.splits)
  qed
qed

lemma is_eval_frame_ex:
  "is_eval_frame ''_PyEval_EvalFrameDefault''" "\<not> is_eval_frame ''malloc''"
  "\<not> is_eval_frame ''call_function''" "\<not> is_eval_frame ''Py_RunMain''"
  "\<not> is_eval_frame ''__libc_start_main''"
  by (simp_all add: is_eval_frame_def sublist_code prefix_code)

lemma pure_trace_ex: "pure_python_stack_trace trace_ex = [(''f'', ''a.py'', 12), (''main'', ''a.py'', 3)]"
  by (simp add: pure_python_stack_trace_def trace_ex_def suffix_to_prefix)

lemma hybrid_loop_no_trampoline:
  "eval_frames post = [] \<Longrightarrow> n \<noteq> Some 0 \<Longrightarrow> hybrid_loop n python_stack post = (post, None)"
  by (induction post) (auto simp: eval_frames_def split: if_splits)

lemma hybrid_loop_few_trampolines:
  assumes "eval_frames post = []"
  shows "length (eval_frames native) < length python_stack \<Longrightarrow>
     hybrid_loop (Some (int (length python_stack))) python_stack (native @ post)
       = (fst (hybrid_loop (Some (int (length python_stack))) python_stack native) @ post, None)"
proof (induction native arbitrary: python_stack)
  case Nil
  then show ?case using hybrid_loop_no_trampoline [OF assms] by (cases python_stack) auto
next
  case (Cons x native)
  show ?case
  proof (cases "is_eval_frame (fst x)")
    case True
    with Cons.prems obtain p ps where ps: "python_stack = p # ps"
      "length (eval_frames native) < length ps"
      by (cases python_stack) (auto simp: eval_frames_def)
    with Cons.IH [OF ps(2)] True show ?thesis
      by (auto split: prod.splits)
  next
    case False
    with Cons.prems have "length (eval_frames native) < length python_stack"
      by (simp add: eval_frames_def)
    from Cons.IH [OF this] False Cons.prems show ?thesis
      by (auto split: prod.splits)
  qed
qed

text \<open>
  C9, as amended. Let the pure-interpreter stack (the frames of the trace whose file does
  not end in \<open>.pyx\<close>) be not empty, with \<open>k\<close> frames. When the native trace has a \<open>k\<close>-th
  eval-frame trampoline \<open>e\<close> (the trampolines before \<open>e\<close> are one fewer than the interpreter
  frames), \<open>hybrid_stack_trace\<close> yields what it yields for the native trace cut after \<open>e\<close>:
  every native frame after \<open>e\<close> is dropped, the generator ends without an exception, and
  the last frame it yields is the last interpreter frame. When the native trace has
  fewer than \<open>k\<close> trampolines, the interpreter frames are not all consumed and nothing is
  dropped: the native frames \<open>post\<close> that follow the last trampoline are all yielded, at
  the end of the trace.
\<close>

theorem C9_hybrid_stops:
  assumes "python_stack = pure_python_stack_trace stack_trace" and "python_stack \<noteq> []"
  shows "(is_eval_frame (fst e) \<and> length (eval_frames pre) + 1 = length python_stack \<longrightarrow>
        hybrid_stack_trace stack_trace (pre @ e # post) = hybrid_stack_trace stack_trace (pre @ [e])
      \<and> snd (hybrid_stack_trace stack_trace (pre @ e # post)) = None
      \<and> fst (hybrid_stack_trace stack_trace (pre @ e # post)) \<noteq> []
      \<and> last (fst (hybrid_stack_trace stack_trace (pre @ e # post))) = last python_stack)
     \<and> (length (eval_frames native) < length python_stack \<and> eval_frames tail = [] \<longrightarrow>
        hybrid_stack_trace stack_trace (native @ tail)
          = (fst (hybrid_stack_trace stack_trace native) @ tail, None))"
proof (intro conjI impI)
  assume e: "is_eval_frame (fst e) \<and> length (eval_frames pre) + 1 = length python_stack"
  then have l: "hybrid_loop (Some (int (length python_stack))) python_stack (pre @ e # post)
       = hybrid_loop (Some (int (length python_stack))) python_stack (pre @ [e])
     \<and> snd (hybrid_loop (Some (int (length python_stack))) python_stack (pre @ [e])) = None
     \<and> fst (hybrid_loop (Some (int (length python_stack))) python_stack (pre @ [e])) \<noteq> []
     \<and> last (fst (hybrid_loop (Some (int (length python_stack))) python_stack (pre @ [e])))
         = last python_stack"
    using hybrid_loop_last_trampoline [of e pre python_stack post] by blast
  from l assms
  show "hybrid_stack_trace stack_trace (pre @ e # post) = hybrid_stack_trace stack_trace (pre @ [e])"
    by (simp add: hybrid_stack_trace_def Let_def)
  from l assms show "snd (hybrid_stack_trace stack_trace (pre @ e # post)) = None"
    by (simp add: hybrid_stack_trace_def Let_def)
  from l assms show "fst (hybrid_stack_trace stack_trace (pre @ e # post)) \<noteq> []"
    by (simp add: hybrid_stack_trace_def Let_def)
  from l assms
  show "last (fst (hybrid_stack_trace stack_trace (pre @ e # post))) = last python_stack"
    by (simp add: hybrid_stack_trace_def Let_def)
next
  assume "length (eval_frames native) < length python_stack \<and> eval_frames tail = []"
  then show "hybrid_stack_trace stack_trace (native @ tail)
          = (fst (hybrid_stack_trace stack_trace native) @ tail, None)"
    using assms hybrid_loop_few_trampolines [of tail native python_stack]
    by (simp add: hybrid_stack_trace_def Let_def)
qed

theorem C9_hybrid_stops_witness:
  "pure_python_stack_trace trace_ex = [(''f'', ''a.py'', 12), (''main'', ''a.py'', 3)]
   \<and> is_eval_frame (fst (''_PyEval_EvalFrameDefault'', ''ceval.c'', 4 :: int))
   \<and> length (eval_frames native_pre_ex) + 1 = length (pure_python_stack_trace trace_ex)
   \<and> hybrid_stack_trace trace_ex
        (native_pre_ex @ (''_PyEval_EvalFrameDefault'', ''ceval.c'', 4) # native_post_ex)
       = ([(''malloc'', ''libc.so'', 0), (''f'', ''a.py'', 12), (''call_function'', ''ceval.c'', 2),
           (''main'', ''a.py'', 3)], None)
   \<and> length (eval_frames native_pre_ex) < length (pure_python_stack_trace trace_ex)
   \<and> eval_frames native_post_ex = []
   \<and> hybrid_stack_trace trace_ex (native_pre_ex @ native_post_ex)
       = ([(''malloc'', ''libc.so'', 0), (''f'', ''a.py'', 12), (''call_function'', ''ceval.c'', 2),
           (''Py_RunMain'', ''main.c'', 9), (''__libc_start_main'', ''libc.so'', 0)], None)"
proof -
  let ?e = "(''_PyEval_EvalFrameDefault'', ''ceval.c'', 4 :: int)"
  have a: "[(''f'', ''a.py'', 12), (''main'', ''a.py'', 3)] = pure_python_stack_trace trace_ex"
    by (simp add: pure_trace_ex)
  have b: "[(''f'', ''a.py'', 12 :: int), (''main'', ''a.py'', 3)] \<noteq> []" by simp
  have c: "is_eval_frame (fst ?e)" by (simp add: is_eval_frame_ex)
  have d: "length (eval_frames native_pre_ex) + 1
      = length [(''f'', ''a.py'', 12 :: int), (''main'', ''a.py'', 3)]"
    by (simp add: eval_frames_def native_pre_ex_def is_eval_frame_ex)
  have f: "eval_frames native_post_ex = []"
    by (simp add: eval_frames_def native_post_ex_def is_eval_frame_ex)
  have 1: "hybrid_stack_trace trace_ex (native_pre_ex @ [?e])
       = ([(''malloc'', ''libc.so'', 0), (''f'', ''a.py'', 12), (''call_function'', ''ceval.c'', 2),
           (''main'', ''a.py'', 3)], None)"
    by (simp add: hybrid_stack_trace_def pure_trace_ex native_pre_ex_def is_eval_frame_ex)
  have 2: "hybrid_stack_trace trace_ex native_pre_ex
       = ([(''malloc'', ''libc.so'', 0), (''f'', ''a.py'', 12), (''call_function'', ''ceval.c'', 2)],
          None)"
    by (simp add: hybrid_stack_trace_def pure_trace_ex native_pre_ex_def is_eval_frame_ex)
  from C9_hybrid_stops [OF a b, of ?e native_pre_ex native_post_ex native_pre_ex native_post_ex]
    c d f 1 2
  have "hybrid_stack_trace trace_ex
        (native_pre_ex @ (''_PyEval_EvalFrameDefault'', ''ceval.c'', 4) # native_post_ex)
       = ([(''malloc'', ''libc.so'', 0), (''f'', ''a.py'', 12), (''call_function'', ''ceval.c'', 2),
           (''main'', ''a.py'', 3)], None)
   \<and> hybrid_stack_trace trace_ex (native_pre_ex @ native_post_ex)
       = ([(''malloc'', ''libc.so'', 0), (''f'', ''a.py'', 12), (''call_function'', ''ceval.c'', 2)]
            @ native_post_ex, None)"
    by (simp add: pure_trace_ex)
  then show ?thesis
    using c d f by (simp add: pure_trace_ex native_post_ex_def)
qed

text \<open>
  The claim does not hold for every record with a pure-interpreter stack that is not
  empty. Here the interpreter frames are \<open>f\<close> and \<open>main\<close> and the native trace has one
  trampoline: \<open>Py_RunMain\<close> and \<open>__libc_start_main\<close>, which follow the last trampoline,
  are yielded, and \<open>main\<close> is not.
\<close>

theorem C9_trailing_frames_counterexample:
  "pure_python_stack_trace trace_ex = [(''f'', ''a.py'', 12), (''main'', ''a.py'', 3)]
   \<and> hybrid_stack_trace trace_ex
        ([(''malloc'', ''libc.so'', 0), (''_PyEval_EvalFrameDefault'', ''ceval.c'', 1)]
           @ native_post_ex)
       = ([(''malloc'', ''libc.so'', 0), (''f'', ''a.py'', 12), (''Py_RunMain'', ''main.c'', 9),
           (''__libc_start_main'', ''libc.so'', 0)], None)"
  by (simp add: hybrid_stack_trace_def pure_trace_ex native_post_ex_def is_eval_frame_ex)

section \<open>\<open>FileReader\<close> over a closed reader\<close>




lemma populate_closed:
  "populate_allocations lp64 (file_reader_on (close (reader_on wire_alloc_7_12 True))) =
     Inr (file_reader_on (reader_on [] False))"
proof -
  have c: "close (reader_on wire_alloc_7_12 True) = reader_on [] False"
    by (simp add: close_def source_close_def reader_on_def)
  have e: "nextAllocationRecord lp64 (reader_on [] False) = Inr (None, reader_on [] False)"
    by (rule next_end) (simp add: reader_on_def)
  have "populate_loop lp64 (reader_on [] False) [] = Inr (reader_on [] False, [])"
    by (subst populate_loop.simps) (simp add: e)
  then show ?thesis
    by (simp add: c populate_allocations_def file_reader_on_def get_reader_def)
qed




text \<open>
  \<open>metadata\<close> reaches the reader through \<open>_get_high_watermark\<close> and \<open>_populate_allocations\<close>
  and does not call \<open>_ensure_reader_is_open\<close> as the two generator queries do. Over a reader
  that was closed before its allocations were read it finds the end of the stream at once:
  for a stream that holds an allocation of 64 bytes it reports a peak of 0.
\<close>

lemma metadata_closed_reader:
  "metadata lp64 api_ex (file_reader_on (close (reader_on wire_alloc_7_12 True))) =
       Inr (\<lparr>md_start_time = 0, md_end_time = 0, md_total_allocations = 0, md_total_frames = 0,
             md_peak_memory = 0, md_command_line = [], md_pid = 0\<rparr>,
            (file_reader_on (reader_on [] False))
              \<lparr>fr_high_watermark := Some \<lparr>watermark_index = 0, peak_memory = 0\<rparr>\<rparr>)"
proof -
  let ?closed = "file_reader_on (close (reader_on wire_alloc_7_12 True))"
  have hw: "get_high_watermark lp64 api_ex ?closed =
      Inr (\<lparr>watermark_index = 0, peak_memory = 0\<rparr>,
           (file_reader_on (reader_on [] False))
              \<lparr>fr_high_watermark := Some \<lparr>watermark_index = 0, peak_memory = 0\<rparr>\<rparr>)"
    unfolding get_high_watermark_def populate_closed
    by (simp add: file_reader_on_def api_ex_def Let_def)
  show ?thesis
    unfolding metadata_def hw
    by (simp add: file_reader_on_def api_ex_def header0_def)
qed

end
